theory Spec2Isabelle
  imports Complex_Main "HOL-Library.List_Lexorder" "HOL-Library.Char_ord" "HOL-Library.Multiset"
begin

section \<open>Strings\<close>

text \<open>
  A JavaScript string is a sequence of UTF-16 code units. The model uses \<^typ>\<open>string\<close>,
  whose characters are the code units below 256; the seven of them that
  \<^verbatim>\<open>String.prototype.trim\<close> removes are tab, line feed, vertical tab, form feed,
  carriage return, space and the no-break space.
\<close>

definition dquote :: char where
  "dquote = CHR 0x22"

definition comma :: char where
  "comma = CHR '',''"

definition newline :: char where
  "newline = CHR 0x0A"

definition is_space :: "char \<Rightarrow> bool" where
  "is_space c = (c \<in> set [CHR 0x09, CHR 0x0A, CHR 0x0B, CHR 0x0C, CHR 0x0D, CHR '' '', CHR 0xA0])"

definition trim :: "string \<Rightarrow> string" where
  "trim s = rev (dropWhile is_space (rev (dropWhile is_space s)))"

text \<open>\<^verbatim>\<open>s.split('\n')\<close>: the pieces between line feeds; the empty string gives one empty piece.\<close>

fun split_lines :: "string \<Rightarrow> string \<Rightarrow> string list" where
  "split_lines [] piece = [piece]"
| "split_lines (c # cs) piece =
     (if c = newline then piece # split_lines cs [] else split_lines cs (piece @ [c]))"

section \<open>parseCSV\<close>

text \<open>
  The loop over the characters of one line, with its three variables \<^verbatim>\<open>values\<close>,
  \<^verbatim>\<open>current\<close> and \<^verbatim>\<open>inQuotes\<close>; the last equation is the push after the loop.
\<close>

fun parse_chars :: "string \<Rightarrow> string list \<Rightarrow> string \<Rightarrow> bool \<Rightarrow> string list" where
  "parse_chars [] values current inQuotes = values @ [trim current]"
| "parse_chars (c # cs) values current inQuotes =
     (if c = dquote then parse_chars cs values current (\<not> inQuotes)
      else if c = comma \<and> \<not> inQuotes then parse_chars cs (values @ [trim current]) [] inQuotes
      else parse_chars cs values (current @ [c]) inQuotes)"

definition parseLine :: "string \<Rightarrow> string list" where
  "parseLine line = parse_chars line [] [] False"

definition parseCSV :: "string \<Rightarrow> string list list" where
  "parseCSV csvText = map parseLine (split_lines (trim csvText) [])"

section \<open>Numbers\<close>

text \<open>
  A JavaScript number is an IEEE 754 double. A finite double is modelled by the
  rational it denotes, the two infinities and \<^verbatim>\<open>NaN\<close> by constructors of their own;
  the two zeros are one value. Every arithmetic operation computes the exact result
  and rounds it to the nearest double, ties to the even significand, as the runtime
  does: \<open>round_double\<close> rounds to 53 significant bits, with the fixed spacing
  \<open>2\<^sup>-\<^sup>1\<^sup>0\<^sup>7\<^sup>4\<close> below \<open>2\<^sup>-\<^sup>1\<^sup>0\<^sup>2\<^sup>2\<close>, and \<open>to_double\<close> gives an infinity when the rounded
  value reaches \<open>2\<^sup>1\<^sup>0\<^sup>2\<^sup>4\<close>.
\<close>

datatype number = Finite rat | PosInf | NegInf | NaN

text \<open>The position of the leading bit of a positive integer.\<close>

function ilog2 :: "int \<Rightarrow> nat" where
  "ilog2 n = (if n < 2 then 0 else Suc (ilog2 (n div 2)))"
  by pat_completeness auto
termination
  by (relation "measure nat") auto

declare ilog2.simps [simp del]

definition pow2 :: "int \<Rightarrow> rat" where
  "pow2 k = (if 0 \<le> k then 2 ^ nat k else 1 / 2 ^ nat (- k))"

text \<open>The binary exponent of a positive rational \<open>x\<close>: the \<open>e\<close> with \<open>2\<^sup>e \<le> x < 2\<^sup>e\<^sup>+\<^sup>1\<close>.\<close>

definition exponent :: "rat \<Rightarrow> int" where
  "exponent x =
     (if 1 \<le> x then int (ilog2 \<lfloor>x\<rfloor>)
      else - int (Suc (ilog2 (\<lceil>1 / x\<rceil> - 1))))"

definition round_half_even :: "rat \<Rightarrow> int" where
  "round_half_even q =
     (let n = \<lfloor>q\<rfloor>; r = q - of_int n
      in if r < 1 / 2 then n else if 1 / 2 < r then n + 1 else if even n then n else n + 1)"

definition round_double :: "rat \<Rightarrow> rat" where
  "round_double x =
     (if x = 0 then 0
      else (let ulp = pow2 (max (exponent \<bar>x\<bar>) (- 1022) - 52)
            in of_int (round_half_even (x / ulp)) * ulp))"

definition to_double :: "rat \<Rightarrow> number" where
  "to_double x =
     (let y = round_double x
      in if y = 0 then Finite 0
         else if 1024 \<le> exponent \<bar>y\<bar> then (if 0 < y then PosInf else NegInf)
         else Finite y)"

text \<open>
  Addition, multiplication and division. The code divides only by a positive count,
  by a sum that it has tested to be positive, and by 10; a quotient by zero is given
  the sign of the dividend.
\<close>

fun fadd :: "number \<Rightarrow> number \<Rightarrow> number" where
  "fadd (Finite a) (Finite b) = to_double (a + b)"
| "fadd NaN y = NaN"
| "fadd x NaN = NaN"
| "fadd PosInf NegInf = NaN"
| "fadd NegInf PosInf = NaN"
| "fadd PosInf y = PosInf"
| "fadd NegInf y = NegInf"
| "fadd (Finite a) y = y"

fun fmul :: "number \<Rightarrow> number \<Rightarrow> number" where
  "fmul (Finite a) (Finite b) = to_double (a * b)"
| "fmul NaN y = NaN"
| "fmul x NaN = NaN"
| "fmul (Finite a) PosInf = (if a = 0 then NaN else if 0 < a then PosInf else NegInf)"
| "fmul (Finite a) NegInf = (if a = 0 then NaN else if 0 < a then NegInf else PosInf)"
| "fmul PosInf (Finite b) = (if b = 0 then NaN else if 0 < b then PosInf else NegInf)"
| "fmul NegInf (Finite b) = (if b = 0 then NaN else if 0 < b then NegInf else PosInf)"
| "fmul PosInf PosInf = PosInf"
| "fmul PosInf NegInf = NegInf"
| "fmul NegInf PosInf = NegInf"
| "fmul NegInf NegInf = PosInf"

fun fdiv :: "number \<Rightarrow> number \<Rightarrow> number" where
  "fdiv (Finite a) (Finite b) =
     (if b = 0 then (if a = 0 then NaN else if 0 < a then PosInf else NegInf)
      else to_double (a / b))"
| "fdiv NaN y = NaN"
| "fdiv x NaN = NaN"
| "fdiv (Finite a) y = Finite 0"
| "fdiv PosInf (Finite b) = (if 0 \<le> b then PosInf else NegInf)"
| "fdiv NegInf (Finite b) = (if 0 \<le> b then NegInf else PosInf)"
| "fdiv PosInf PosInf = NaN"
| "fdiv PosInf NegInf = NaN"
| "fdiv NegInf PosInf = NaN"
| "fdiv NegInf NegInf = NaN"

text \<open>\<^verbatim>\<open>x > 0\<close>\<close>

definition is_positive :: "number \<Rightarrow> bool" where
  "is_positive x = (case x of Finite a \<Rightarrow> 0 < a | PosInf \<Rightarrow> True | NegInf \<Rightarrow> False | NaN \<Rightarrow> False)"

text \<open>
  \<^verbatim>\<open>Math.round(x)\<close>: the integer nearest to \<open>x\<close>, the upper one of two. It is exact: a
  double of magnitude \<open>2\<^sup>5\<^sup>2\<close> or more is an integer already.
\<close>

definition Math_round :: "number \<Rightarrow> number" where
  "Math_round x =
     (case x of Finite a \<Rightarrow> Finite (of_int \<lfloor>a + 1 / 2\<rfloor>) | PosInf \<Rightarrow> PosInf
      | NegInf \<Rightarrow> NegInf | NaN \<Rightarrow> NaN)"

text \<open>
  \<^verbatim>\<open>x || 0\<close> on a property that holds a number or is \<^verbatim>\<open>undefined\<close> (\<open>None\<close>): zero
  and \<^verbatim>\<open>NaN\<close> are falsy.
\<close>

definition or_zero :: "number option \<Rightarrow> number" where
  "or_zero x =
     (case x of None \<Rightarrow> Finite 0
      | Some v \<Rightarrow> if v = NaN \<or> v = Finite 0 then Finite 0 else v)"

text \<open>The length of an array as a number; an array has fewer than \<open>2\<^sup>3\<^sup>2\<close> elements.\<close>

definition of_count :: "nat \<Rightarrow> number" where
  "of_count n = Finite (of_nat n)"

section \<open>The platform\<close>

text \<open>
  The functions of the JavaScript runtime and of the date-fns library that the code
  calls are parameters of the model: every theorem quantified over a platform holds
  whatever these functions compute. A \<^verbatim>\<open>Date\<close> is its time value in milliseconds,
  \<open>None\<close> for an \<^verbatim>\<open>Invalid Date\<close>. \<open>localeCompare\<close> is the collation of the runtime's
  locale, and \<open>sort_order\<close> is the order in which the engine leaves an array whose
  comparator is not a consistent comparison (see \<open>reorder\<close> below). The clock read by
  \<^verbatim>\<open>new Date()\<close> is the parameter \<open>now\<close> of \<open>processDataForTimeRange\<close>.
\<close>

record platform =
  parseInt :: "string \<Rightarrow> number"
  parseFloat :: "string \<Rightarrow> number"
  Date_parse :: "string \<Rightarrow> int option"
  parseISO :: "string \<Rightarrow> int option"
  subDays :: "int \<Rightarrow> int \<Rightarrow> int"
  subWeeks :: "int \<Rightarrow> int \<Rightarrow> int"
  subMonths :: "int \<Rightarrow> int \<Rightarrow> int"
  subYears :: "int \<Rightarrow> int \<Rightarrow> int"
  startOfWeek :: "int \<Rightarrow> int"
  startOfMonth :: "int \<Rightarrow> int"
  startOfYear :: "int \<Rightarrow> int"
  format :: "int \<Rightarrow> string \<Rightarrow> string"
  localeCompare :: "string \<Rightarrow> string \<Rightarrow> int"
  sort_order :: "int option list \<Rightarrow> nat list"

text \<open>
  \<^verbatim>\<open>isWithinInterval(date, {start, end})\<close> of date-fns 3 and later: the two ends are
  put in order and the time value is compared with both, so an invalid date is in no
  interval. date-fns 2 compares in the same way when \<open>start \<le> end\<close> and throws
  otherwise, which the \<^verbatim>\<open>catch\<close> of the caller turns into \<^verbatim>\<open>false\<close>.
\<close>

definition isWithinInterval :: "int option \<Rightarrow> int option \<Rightarrow> int option \<Rightarrow> bool" where
  "isWithinInterval date start end =
     (case date of None \<Rightarrow> False | Some time \<Rightarrow>
      (case start of None \<Rightarrow> False | Some a \<Rightarrow>
       (case end of None \<Rightarrow> False | Some b \<Rightarrow> min a b \<le> time \<and> time \<le> max a b)))"

text \<open>
  \<^verbatim>\<open>Array.prototype.sort(cmp)\<close> with a consistent comparison function (one that never
  returns \<^verbatim>\<open>NaN\<close> and orders the elements in classes) sorts the array and is stable;
  every stable sort returns the same array then, and \<open>sort_by\<close> is the stable insertion
  sort. A comparator that is a difference of integers or a collation is consistent.
\<close>

fun insert_by :: "('a \<Rightarrow> 'a \<Rightarrow> int) \<Rightarrow> 'a \<Rightarrow> 'a list \<Rightarrow> 'a list" where
  "insert_by cmp x [] = [x]"
| "insert_by cmp x (y # ys) = (if cmp x y \<le> 0 then x # y # ys else y # insert_by cmp x ys)"

definition sort_by :: "('a \<Rightarrow> 'a \<Rightarrow> int) \<Rightarrow> 'a list \<Rightarrow> 'a list" where
  "sort_by cmp xs = foldr (insert_by cmp) xs []"

text \<open>
  With a comparator that is not consistent the order of the result is left to the
  engine; the result still holds the elements of the array. \<open>reorder idx xs\<close> is the
  array \<open>xs\<close> in the order of the positions \<open>idx\<close>, a permutation of \<open>0, \<dots>, n - 1\<close>.
\<close>

definition reorder :: "nat list \<Rightarrow> 'a list \<Rightarrow> 'a list" where
  "reorder idx xs = (if sort idx = [0 ..< length xs] then map (\<lambda>i. xs ! i) idx else xs)"

text \<open>
  A \<^verbatim>\<open>Map\<close> keeps its entries in the order in which the keys were first set; setting
  a key that is present changes the value in place.
\<close>

fun map_set :: "'k \<Rightarrow> 'v \<Rightarrow> ('k \<times> 'v) list \<Rightarrow> ('k \<times> 'v) list" where
  "map_set k v [] = [(k, v)]"
| "map_set k v ((k', v') # m) = (if k' = k then (k, v) # m else (k', v') # map_set k v m)"

definition get_or_zero :: "('k \<times> nat) list \<Rightarrow> 'k \<Rightarrow> nat" where
  "get_or_zero m k = (case map_of m k of None \<Rightarrow> 0 | Some c \<Rightarrow> c)"

section \<open>The record mappers\<close>

datatype jsval = JNum number | JStr string

type_synonym obj = "string \<Rightarrow> jsval option"

text \<open>\<^verbatim>\<open>row[index]?.trim() || ''\<close>\<close>

definition cell :: "string list \<Rightarrow> nat \<Rightarrow> string" where
  "cell row index = (if index < length row then trim (row ! index) else [])"

definition dailyColumn :: "platform \<Rightarrow> string \<Rightarrow> string \<Rightarrow> obj \<Rightarrow> obj" where
  "dailyColumn P header value obj =
     (let cleanHeader = trim header in
      if cleanHeader = ''start_date'' then obj(cleanHeader \<mapsto> JStr value)
      else if cleanHeader \<in> set [''total_sessions'', ''completed_sessions'', ''material_types'',
                                 ''total_jobs'']
        then obj(cleanHeader \<mapsto> JNum (or_zero (Some (parseInt P value))))
      else if cleanHeader \<in> set [''total_duration_minutes'', ''avg_duration_minutes'',
                                 ''success_rate'', ''utilization_hours'']
        then obj(cleanHeader \<mapsto> JNum (or_zero (Some (parseFloat P value))))
      else obj)"

text \<open>
  In the last branch \<^verbatim>\<open>obj[cleanHeader] = value\<close> stores a string under any name but
  \<^verbatim>\<open>__proto__\<close>: that assignment runs the setter inherited from
  \<^verbatim>\<open>Object.prototype\<close>, which ignores a string and creates no property.
\<close>

definition sessionColumn :: "platform \<Rightarrow> string \<Rightarrow> string \<Rightarrow> obj \<Rightarrow> obj" where
  "sessionColumn P header value obj =
     (let cleanHeader = trim header in
      if cleanHeader \<in> set [''session_id'', ''start_hour'', ''job_count'']
        then obj(cleanHeader \<mapsto> JNum (or_zero (Some (parseInt P value))))
      else if cleanHeader \<in> set [''duration_minutes'']
        then obj(cleanHeader \<mapsto> JNum (or_zero (Some (parseFloat P value))))
      else if cleanHeader = ''__proto__'' then obj
      else obj(cleanHeader \<mapsto> JStr value))"

text \<open>\<^verbatim>\<open>headers.forEach((header, index) => ...)\<close> on one row.\<close>

fun forEach_header ::
  "(string \<Rightarrow> string \<Rightarrow> obj \<Rightarrow> obj) \<Rightarrow> string list \<Rightarrow> nat \<Rightarrow> string list \<Rightarrow> obj \<Rightarrow> obj" where
  "forEach_header f [] index row obj = obj"
| "forEach_header f (header # headers) index row obj =
     forEach_header f headers (Suc index) row (f header (cell row index) obj)"

definition parseDailyData :: "platform \<Rightarrow> string \<Rightarrow> obj list" where
  "parseDailyData P csvText =
     (case parseCSV csvText of [] \<Rightarrow> []
      | headers # dataRows \<Rightarrow>
          map (\<lambda>row. forEach_header (dailyColumn P) headers 0 row Map.empty) dataRows)"

definition parseJobSessions :: "platform \<Rightarrow> string \<Rightarrow> obj list" where
  "parseJobSessions P csvText =
     (case parseCSV csvText of [] \<Rightarrow> []
      | headers # dataRows \<Rightarrow>
          map (\<lambda>row. forEach_header (sessionColumn P) headers 0 row Map.empty) dataRows)"

section \<open>The typed records\<close>

text \<open>
  The interfaces of \<^verbatim>\<open>types/dental.ts\<close>. A field is an option where the interface
  declares it nullable or optional, or where the code guards its reads
  (\<^verbatim>\<open>x || 0\<close>, \<^verbatim>\<open>x || y\<close>, \<^verbatim>\<open>x !== undefined\<close>, \<^verbatim>\<open>if (x)\<close>): \<open>None\<close> is
  \<^verbatim>\<open>null\<close> or \<^verbatim>\<open>undefined\<close>, and for \<^verbatim>\<open>start_hour\<close>, whose type has no
  \<^verbatim>\<open>null\<close>, it is \<^verbatim>\<open>undefined\<close>. The field \<^verbatim>\<open>start_date\<close> of a session is
  \<open>start_date_s\<close> and the field \<^verbatim>\<open>success_rate\<close> of a chart point is
  \<open>success_rate_c\<close>, since a field name belongs to one record type. Every record of
  the model has a \<^verbatim>\<open>start_date\<close> string, as the interfaces require; a record
  without one is rejected by both filters like one whose date does not parse.
\<close>

record DailyData =
  start_date :: string
  total_sessions :: "number option"
  total_duration_minutes :: number
  avg_duration_minutes :: number
  completed_sessions :: "number option"
  material_types :: number
  success_rate :: number
  utilization_hours :: "number option"
  total_jobs :: number

record JobSession =
  session_id :: number
  session_start :: "string option"
  start_date_s :: string
  start_hour :: "number option"
  material_type :: "string option"
  material_color :: "string option"
  status :: string
  duration_minutes :: "number option"
  job_count :: number

record ChartData =
  date :: string
  jobs :: number
  success_rate_c :: number
  utilization :: number

datatype TimeRange = daily | weekly | monthly | yearly

text \<open>
  The value of a property read from the object literal \<^verbatim>\<open>colors\<close>: a string of the
  literal, or a member that the literal inherits from \<^verbatim>\<open>Object.prototype\<close> (a function
  or an object, never a string), or \<^verbatim>\<open>undefined\<close>.
\<close>

datatype prop_value = Str string | Inherited string | Undefined

record MaterialEntry =
  material :: string
  count :: nat
  color :: prop_value

record AggregationResult =
  totalJobs :: nat
  successRate :: number
  utilizationHours :: number
  materialTypes :: nat
  avgDuration :: number
  peakHour :: number
  errorCount :: nat
  chartData :: "ChartData list"
  materialBreakdown :: "MaterialEntry list"
  recentSessions :: "JobSession list"

section \<open>getMaterialColor\<close>

definition colors :: "(string \<times> string) list" where
  "colors = [(''Pan Dental'', ''#3b82f6''), (''Denture Care'', ''#10b981''),
             (''hyperDENT'', ''#f59e0b''), (''Unknown'', ''#6b7280'')]"

definition object_prototype_members :: "string list" where
  "object_prototype_members =
     [''constructor'', ''__proto__'', ''hasOwnProperty'', ''isPrototypeOf'',
      ''propertyIsEnumerable'', ''toLocaleString'', ''toString'', ''valueOf'',
      ''__defineGetter__'', ''__defineSetter__'', ''__lookupGetter__'', ''__lookupSetter__'']"

text \<open>
  \<^verbatim>\<open>colors[name]\<close>: an own property of the literal first, then the prototype chain.
\<close>

definition colors_get :: "string \<Rightarrow> prop_value" where
  "colors_get name =
     (case map_of colors name of Some c \<Rightarrow> Str c
      | None \<Rightarrow> if name \<in> set object_prototype_members then Inherited name else Undefined)"

definition truthy :: "prop_value \<Rightarrow> bool" where
  "truthy v = (case v of Str s \<Rightarrow> s \<noteq> [] | Inherited m \<Rightarrow> True | Undefined \<Rightarrow> False)"

definition getMaterialColor :: "string \<Rightarrow> prop_value" where
  "getMaterialColor name =
     (if truthy (colors_get name) then colors_get name else colors_get ''Unknown'')"

section \<open>groupDataByPeriod\<close>

definition groupBy :: "platform \<Rightarrow> TimeRange \<Rightarrow> int \<Rightarrow> string" where
  "groupBy P timeRange d =
     (case timeRange of
        daily \<Rightarrow> format P d ''MMM dd''
      | weekly \<Rightarrow> format P (startOfWeek P d) ''MMM dd''
      | monthly \<Rightarrow> format P (startOfMonth P d) ''MMM yyyy''
      | yearly \<Rightarrow> format P (startOfYear P d) ''yyyy'')"

text \<open>
  One step of \<^verbatim>\<open>data.forEach\<close>: an item whose date is invalid makes
  \<^verbatim>\<open>format\<close> throw and is skipped by the \<^verbatim>\<open>catch\<close>; otherwise the item is pushed to
  the array of its key, which is created at the end of the map when the key is new.
\<close>

definition group_item ::
  "platform \<Rightarrow> (int \<Rightarrow> string) \<Rightarrow> (string \<times> DailyData list) list \<Rightarrow> DailyData
     \<Rightarrow> (string \<times> DailyData list) list" where
  "group_item P key_of grouped item =
     (case parseISO P (start_date item) of None \<Rightarrow> grouped
      | Some d \<Rightarrow>
          (let key = key_of d;
               grouped' = (if map_of grouped key = None then map_set key [] grouped else grouped)
           in (case map_of grouped' key of None \<Rightarrow> grouped'
               | Some items \<Rightarrow> map_set key (items @ [item]) grouped')))"

definition chart_point :: "string \<times> DailyData list \<Rightarrow> ChartData" where
  "chart_point entry =
     (case entry of (label, items) \<Rightarrow>
       (let totalJobs = foldl (\<lambda>sum item. fadd sum (or_zero (total_sessions item))) (Finite 0) items;
            totalCompleted =
              foldl (\<lambda>sum item. fadd sum (or_zero (completed_sessions item))) (Finite 0) items;
            successRate = (if is_positive totalJobs
                           then fmul (fdiv totalCompleted totalJobs) (Finite 100) else Finite 0);
            utilization =
              foldl (\<lambda>sum item. fadd sum (or_zero (utilization_hours item))) (Finite 0) items
        in \<lparr> date = label, jobs = totalJobs,
             success_rate_c = fdiv (Math_round (fmul successRate (Finite 10))) (Finite 10),
             utilization = fdiv (Math_round (fmul utilization (Finite 10))) (Finite 10) \<rparr>))"

text \<open>
  The points are sorted by \<^verbatim>\<open>a.date.localeCompare(b.date)\<close>, the collation of the
  platform.
\<close>

definition groupDataByPeriod :: "platform \<Rightarrow> DailyData list \<Rightarrow> (int \<Rightarrow> string) \<Rightarrow> ChartData list" where
  "groupDataByPeriod P data key_of =
     sort_by (\<lambda>a b. localeCompare P (date a) (date b))
       (map chart_point (foldl (group_item P key_of) [] data))"

section \<open>processDataForTimeRange\<close>

definition startDate :: "platform \<Rightarrow> int \<Rightarrow> TimeRange \<Rightarrow> int" where
  "startDate P now timeRange =
     (case timeRange of
        daily \<Rightarrow> subDays P now 30
      | weekly \<Rightarrow> subWeeks P now 12
      | monthly \<Rightarrow> subMonths P now 12
      | yearly \<Rightarrow> subYears P now 5)"

text \<open>The two filters; the predicate is the body of the \<^verbatim>\<open>try\<close>.\<close>

definition filteredDaily :: "platform \<Rightarrow> int \<Rightarrow> TimeRange \<Rightarrow> DailyData list \<Rightarrow> DailyData list" where
  "filteredDaily P now timeRange dailyData =
     filter (\<lambda>item. isWithinInterval (parseISO P (start_date item))
                       (Some (startDate P now timeRange)) (Some now)) dailyData"

definition filteredSessions :: "platform \<Rightarrow> int \<Rightarrow> TimeRange \<Rightarrow> JobSession list \<Rightarrow> JobSession list" where
  "filteredSessions P now timeRange sessions =
     filter (\<lambda>session. isWithinInterval (parseISO P (start_date_s session))
                          (Some (startDate P now timeRange)) (Some now)) sessions"

definition count_material :: "(string \<times> nat) list \<Rightarrow> JobSession \<Rightarrow> (string \<times> nat) list" where
  "count_material materialCounts session =
     (case material_type session of None \<Rightarrow> materialCounts
      | Some m \<Rightarrow> if m = [] then materialCounts
                  else map_set m (get_or_zero materialCounts m + 1) materialCounts)"

text \<open>The keys of \<^verbatim>\<open>hourCounts\<close> are numbers; a \<^verbatim>\<open>Map\<close> takes \<^verbatim>\<open>NaN\<close> as one key.\<close>

definition count_hour :: "(number \<times> nat) list \<Rightarrow> JobSession \<Rightarrow> (number \<times> nat) list" where
  "count_hour hourCounts session =
     (case start_hour session of None \<Rightarrow> hourCounts
      | Some h \<Rightarrow> map_set h (get_or_zero hourCounts h + 1) hourCounts)"

text \<open>
  \<^verbatim>\<open>new Date(s.session_start || s.start_date).getTime()\<close>; the empty string is falsy.
\<close>

definition session_time :: "platform \<Rightarrow> JobSession \<Rightarrow> int option" where
  "session_time P s =
     Date_parse P (case session_start s of None \<Rightarrow> start_date_s s
                   | Some t \<Rightarrow> if t = [] then start_date_s s else t)"

text \<open>
  The comparator of the recent-sessions sort, \<^verbatim>\<open>time(b) - time(a)\<close>, as the sort reads
  it. Time values are integers of magnitude at most \<open>8.64 \<times> 10\<^sup>1\<^sup>5\<close>, which are doubles,
  and the double difference of two of them has the sign of the exact difference.
\<close>

definition recent_cmp :: "platform \<Rightarrow> JobSession \<Rightarrow> JobSession \<Rightarrow> int" where
  "recent_cmp P a b =
     (case session_time P b of None \<Rightarrow> 0
      | Some tb \<Rightarrow> (case session_time P a of None \<Rightarrow> 0 | Some ta \<Rightarrow> tb - ta))"

text \<open>
  \<^verbatim>\<open>filteredSessions.sort((a, b) => time(b) - time(a))\<close>. The difference is
  \<^verbatim>\<open>NaN\<close> when one of the two times is invalid, and the sort reads \<^verbatim>\<open>NaN\<close> as 0,
  which is what \<open>recent_cmp\<close> returns. This comparator is consistent when every time
  is valid, and when the valid times are all equal (it is 0 on every pair then): the
  array is sorted, most recent first, sessions that compare equal in their former
  order. In every other case an invalid time compares equal to two valid times that
  differ, and the order of the result is the engine's, a function of what the
  comparator shows, which is the list of the times.
\<close>

definition consistent_times :: "int option list \<Rightarrow> bool" where
  "consistent_times ts =
     (list_all (\<lambda>t. t \<noteq> None) ts \<or> length (remdups (filter (\<lambda>t. t \<noteq> None) ts)) \<le> 1)"

definition recentSort :: "platform \<Rightarrow> JobSession list \<Rightarrow> JobSession list" where
  "recentSort P xs =
     (if consistent_times (map (session_time P) xs) then sort_by (recent_cmp P) xs
      else reorder (sort_order P (map (session_time P) xs)) xs)"

definition peak_step ::
  "(number \<times> nat) list \<Rightarrow> number \<times> nat \<Rightarrow> number \<times> nat \<Rightarrow> number \<times> nat" where
  "peak_step hourCounts best entry =
     (if snd entry > get_or_zero hourCounts (fst best) then entry else best)"

text \<open>
  The body of the function. \<^verbatim>\<open>filteredSessions.sort(...)\<close> sorts the filtered array
  in place, so the statements after it (the duration sum, the error count and the
  hour counts) read the sorted array \<open>sorted\<close>; the job count, the completed count
  and the material counts are computed before it. The comparator of the breakdown
  sort is a difference of two counts.
\<close>

definition processDataForTimeRange ::
  "platform \<Rightarrow> int \<Rightarrow> DailyData list \<Rightarrow> JobSession list \<Rightarrow> TimeRange \<Rightarrow> AggregationResult" where
  "processDataForTimeRange P now dailyData sessions timeRange =
     (let fDaily = filteredDaily P now timeRange dailyData;
          fSessions = filteredSessions P now timeRange sessions;
          groupedData = groupDataByPeriod P fDaily (groupBy P timeRange);
          totalJobs = length fSessions;
          completedJobs = length (filter (\<lambda>s. status s = ''Completed'') fSessions);
          successRate = (if totalJobs > 0
                         then fmul (fdiv (of_count completedJobs) (of_count totalJobs)) (Finite 100)
                         else Finite 0);
          totalUtilization =
            foldl (\<lambda>sum item. fadd sum (or_zero (utilization_hours item))) (Finite 0) fDaily;
          materialCounts = foldl count_material [] fSessions;
          materialBreakdown =
            sort_by (\<lambda>a b. int (count b) - int (count a))
              (map (\<lambda>(m, c). \<lparr> material = m, count = c, color = getMaterialColor m \<rparr>) materialCounts);
          sorted = recentSort P fSessions;
          recentSessions = take 10 sorted;
          totalDuration = foldl (\<lambda>sum s. fadd sum (or_zero (duration_minutes s))) (Finite 0) sorted;
          avgDuration = (if totalJobs > 0 then fdiv totalDuration (of_count totalJobs) else Finite 0);
          errorCount = length (filter (\<lambda>s. status s = ''Incomplete'') sorted);
          materialTypes = length materialCounts;
          hourCounts = foldl count_hour [] sorted;
          peakHour = fst (foldl (peak_step hourCounts) (Finite 9, 0) hourCounts)
      in \<lparr> totalJobs = totalJobs, successRate = successRate,
           utilizationHours = totalUtilization, materialTypes = materialTypes,
           avgDuration = avgDuration, peakHour = peakHour, errorCount = errorCount,
           chartData = groupedData, materialBreakdown = materialBreakdown,
           recentSessions = recentSessions \<rparr>)"

section \<open>A reference platform\<close>

text \<open>
  One platform on which the model is evaluated at concrete inputs: the runtime in the
  UTC time zone with a locale whose collation is the order of the code units. Its
  \<open>parseISO\<close> and \<open>Date.parse\<close> read the calendar dates \<^verbatim>\<open>YYYY-MM-DD\<close> (midnight UTC)
  and reject every other string; its \<open>parseInt\<close> reads an optional sign and the longest
  prefix of digits, decimal or, after \<^verbatim>\<open>0x\<close>, hexadecimal; its \<open>parseFloat\<close> reads an
  optional sign, digits and an optional fraction, which is what the runtime reads
  from a string with no exponent part that does not spell an infinity. Both give the
  double nearest to the number read, and \<^verbatim>\<open>NaN\<close> when they read none. The calendar
  arithmetic is that of the proleptic Gregorian calendar, weeks start on Sunday. An
  array that is sorted with an inconsistent comparator is left in its order; no
  example of this development sorts such an array.
\<close>

definition digit_value :: "char \<Rightarrow> nat option" where
  "digit_value c = map_of (zip ''0123456789abcdef'' [0 ..< 16] @ zip ''ABCDEF'' [10 ..< 16]) c"

definition is_digit :: "nat \<Rightarrow> char \<Rightarrow> bool" where
  "is_digit radix c = (case digit_value c of None \<Rightarrow> False | Some v \<Rightarrow> v < radix)"

definition digits_value :: "nat \<Rightarrow> string \<Rightarrow> nat" where
  "digits_value radix ds = foldl (\<lambda>n c. radix * n + (case digit_value c of None \<Rightarrow> 0 | Some v \<Rightarrow> v)) 0 ds"

definition strip_sign :: "string \<Rightarrow> bool \<times> string" where
  "strip_sign s =
     (case s of [] \<Rightarrow> (False, [])
      | c # cs \<Rightarrow> if c = CHR ''-'' then (True, cs) else if c = CHR ''+'' then (False, cs) else (False, s))"

definition utc_parseInt :: "string \<Rightarrow> number" where
  "utc_parseInt s =
     (case strip_sign (dropWhile is_space s) of (negative, t) \<Rightarrow>
       (let hex = (take 2 t = ''0x'' \<or> take 2 t = ''0X'');
            radix = (if hex then 16 else 10);
            ds = takeWhile (is_digit radix) (if hex then drop 2 t else t)
        in if ds = [] then NaN
           else to_double (if negative then - of_nat (digits_value radix ds)
                           else of_nat (digits_value radix ds))))"

definition utc_parseFloat :: "string \<Rightarrow> number" where
  "utc_parseFloat s =
     (case strip_sign (dropWhile is_space s) of (negative, t) \<Rightarrow>
       (let whole = takeWhile (is_digit 10) t;
            rest = dropWhile (is_digit 10) t;
            frac = (case rest of [] \<Rightarrow> []
                    | c # cs \<Rightarrow> if c = CHR ''.'' then takeWhile (is_digit 10) cs else []);
            v = of_nat (digits_value 10 whole)
                + of_nat (digits_value 10 frac) / of_nat (10 ^ length frac)
        in if whole = [] \<and> frac = [] then NaN
           else to_double (if negative then - v else v)))"

definition ms_per_day :: int where
  "ms_per_day = 86400000"

definition days_from_civil :: "int \<Rightarrow> int \<Rightarrow> int \<Rightarrow> int" where
  "days_from_civil y m d =
     (let y' = (if m \<le> 2 then y - 1 else y);
          era = y' div 400;
          yoe = y' - era * 400;
          doy = (153 * (if m > 2 then m - 3 else m + 9) + 2) div 5 + d - 1;
          doe = yoe * 365 + yoe div 4 - yoe div 100 + doy
      in era * 146097 + doe - 719468)"

definition civil_from_days :: "int \<Rightarrow> int \<times> int \<times> int" where
  "civil_from_days z0 =
     (let z = z0 + 719468;
          era = z div 146097;
          doe = z - era * 146097;
          yoe = (doe - doe div 1460 + doe div 36524 - doe div 146096) div 365;
          doy = doe - (365 * yoe + yoe div 4 - yoe div 100);
          mp = (5 * doy + 2) div 153;
          d = doy - (153 * mp + 2) div 5 + 1;
          m = (if mp < 10 then mp + 3 else mp - 9);
          y = yoe + era * 400 + (if m \<le> 2 then 1 else 0)
      in (y, m, d))"

definition days_in_month :: "int \<Rightarrow> int \<Rightarrow> int" where
  "days_in_month y m =
     days_from_civil (if m = 12 then y + 1 else y) (if m = 12 then 1 else m + 1) 1
       - days_from_civil y m 1"

definition utc_parseISO :: "string \<Rightarrow> int option" where
  "utc_parseISO s =
     (if length s = 10 \<and> s ! 4 = CHR ''-'' \<and> s ! 7 = CHR ''-''
         \<and> list_all (is_digit 10) (take 4 s @ take 2 (drop 5 s) @ drop 8 s)
      then (let y = int (digits_value 10 (take 4 s));
                m = int (digits_value 10 (take 2 (drop 5 s)));
                d = int (digits_value 10 (drop 8 s))
            in if 1 \<le> m \<and> m \<le> 12 \<and> 1 \<le> d \<and> d \<le> days_in_month y m
               then Some (days_from_civil y m d * ms_per_day) else None)
      else None)"

definition utc_subDays :: "int \<Rightarrow> int \<Rightarrow> int" where
  "utc_subDays t n = t - n * ms_per_day"

definition utc_subMonths :: "int \<Rightarrow> int \<Rightarrow> int" where
  "utc_subMonths t n =
     (case civil_from_days (t div ms_per_day) of (y, m, d) \<Rightarrow>
       (let index = y * 12 + (m - 1) - n;
            y' = index div 12;
            m' = index mod 12 + 1
        in days_from_civil y' m' (min d (days_in_month y' m')) * ms_per_day + t mod ms_per_day))"

definition utc_startOfWeek :: "int \<Rightarrow> int" where
  "utc_startOfWeek t = (t div ms_per_day - (t div ms_per_day + 4) mod 7) * ms_per_day"

definition utc_startOfMonth :: "int \<Rightarrow> int" where
  "utc_startOfMonth t =
     (case civil_from_days (t div ms_per_day) of (y, m, d) \<Rightarrow> days_from_civil y m 1 * ms_per_day)"

definition utc_startOfYear :: "int \<Rightarrow> int" where
  "utc_startOfYear t =
     (case civil_from_days (t div ms_per_day) of (y, m, d) \<Rightarrow> days_from_civil y 1 1 * ms_per_day)"

definition pad :: "nat \<Rightarrow> nat \<Rightarrow> string" where
  "pad width n = map (\<lambda>i. ''0123456789'' ! ((n div 10 ^ i) mod 10)) (rev [0 ..< width])"

definition month_abbr :: "int \<Rightarrow> string" where
  "month_abbr m = [''Jan'', ''Feb'', ''Mar'', ''Apr'', ''May'', ''Jun'', ''Jul'', ''Aug'', ''Sep'',
                   ''Oct'', ''Nov'', ''Dec''] ! nat (m - 1)"

definition utc_format :: "int \<Rightarrow> string \<Rightarrow> string" where
  "utc_format t pattern =
     (case civil_from_days (t div ms_per_day) of (y, m, d) \<Rightarrow>
        if pattern = ''MMM dd'' then month_abbr m @ '' '' @ pad 2 (nat d)
        else if pattern = ''MMM yyyy'' then month_abbr m @ '' '' @ pad 4 (nat y)
        else if pattern = ''yyyy'' then pad 4 (nat y)
        else [])"

definition utc_localeCompare :: "string \<Rightarrow> string \<Rightarrow> int" where
  "utc_localeCompare a b = (if a < b then - 1 else if a = b then 0 else 1)"

definition utc :: platform where
  "utc = \<lparr> parseInt = utc_parseInt, parseFloat = utc_parseFloat,
           Date_parse = utc_parseISO, parseISO = utc_parseISO,
           subDays = utc_subDays, subWeeks = (\<lambda>t n. utc_subDays t (7 * n)),
           subMonths = utc_subMonths, subYears = (\<lambda>t n. utc_subMonths t (12 * n)),
           startOfWeek = utc_startOfWeek, startOfMonth = utc_startOfMonth,
           startOfYear = utc_startOfYear, format = utc_format,
           localeCompare = utc_localeCompare, sort_order = (\<lambda>ts. [0 ..< length ts]) \<rparr>"

section \<open>Example inputs\<close>

text \<open>The clock reading 2024-01-15T00:00:00Z and a later one, 2024-03-20T00:00:00Z.\<close>

definition now0 :: int where
  "now0 = 1705276800000"

definition now1 :: int where
  "now1 = 1710892800000"

text \<open>
  A daily record with its date, sessions, completed sessions and hours, and a session
  with its date, hour, material type and status; the numbers are doubles.
\<close>

definition mk_daily :: "string \<Rightarrow> rat \<Rightarrow> rat \<Rightarrow> rat \<Rightarrow> DailyData" where
  "mk_daily d sessions completed hours =
     \<lparr> start_date = d, total_sessions = Some (Finite sessions),
       total_duration_minutes = Finite 0, avg_duration_minutes = Finite 0,
       completed_sessions = Some (Finite completed), material_types = Finite 0,
       success_rate = Finite 0, utilization_hours = Some (Finite hours), total_jobs = Finite 0 \<rparr>"

definition mk_session :: "string \<Rightarrow> rat \<Rightarrow> string option \<Rightarrow> string \<Rightarrow> JobSession" where
  "mk_session d h m st =
     \<lparr> session_id = Finite 0, session_start = None, start_date_s = d, start_hour = Some (Finite h),
       material_type = m, material_color = None, status = st, duration_minutes = None,
       job_count = Finite 1 \<rparr>"

section \<open>Vocabulary of the statements\<close>

text \<open>
  One counting step of a map, and the hours and the materials that the sessions
  contribute to the two maps, in the order read.
\<close>

definition count_key :: "('k \<times> nat) list \<Rightarrow> 'k \<Rightarrow> ('k \<times> nat) list" where
  "count_key m k = map_set k (get_or_zero m k + 1) m"

definition hours_of :: "JobSession list \<Rightarrow> number list" where
  "hours_of ss = concat (map (\<lambda>s. case start_hour s of None \<Rightarrow> [] | Some h \<Rightarrow> [h]) ss)"

definition materials_of :: "JobSession list \<Rightarrow> string list" where
  "materials_of ss =
     concat (map (\<lambda>s. case material_type s of None \<Rightarrow> []
                       | Some m \<Rightarrow> if m = [] then [] else [m]) ss)"

text \<open>
  The peak hour in the words of claim C5: the first hour, in the order read, among the
  hours with the highest number of occurrences, and 9 when there is none.
\<close>

definition claimed_peakHour :: "number list \<Rightarrow> number" where
  "claimed_peakHour hs =
     (case filter (\<lambda>h. \<forall>h' \<in> set hs. count_list hs h' \<le> count_list hs h) hs of
        [] \<Rightarrow> Finite 9 | h # _ \<Rightarrow> h)"

text \<open>Two sessions of the same day at hours 10 and 9, in this order.\<close>

definition tied_sessions :: "JobSession list" where
  "tied_sessions = [mk_session ''2024-01-10'' 10 None ''Completed'',
                    mk_session ''2024-01-10'' 9 None ''Incomplete'']"

text \<open>Three sessions of the same day at hours 9, 9 and 10.\<close>

definition peak_sessions :: "JobSession list" where
  "peak_sessions = [mk_session ''2024-01-10'' 9 None ''Completed'',
                    mk_session ''2024-01-10'' 9 None ''Completed'',
                    mk_session ''2024-01-10'' 10 None ''Completed'']"

text \<open>Two sessions at hours 10 and 11, the later one second.\<close>

definition later_sessions :: "JobSession list" where
  "later_sessions = [mk_session ''2024-01-08'' 10 None ''Completed'',
                     mk_session ''2024-01-10'' 11 None ''Completed'']"

text \<open>
  The bucket label of a daily record, \<open>None\<close> when its date does not parse, and the
  records of a list that fall into the bucket with a given label.
\<close>

definition bucket_of :: "platform \<Rightarrow> (int \<Rightarrow> string) \<Rightarrow> DailyData \<Rightarrow> string option" where
  "bucket_of P key_of item = map_option key_of (parseISO P (start_date item))"

definition bucket :: "platform \<Rightarrow> (int \<Rightarrow> string) \<Rightarrow> DailyData list \<Rightarrow> string \<Rightarrow> DailyData list" where
  "bucket P key_of data k = filter (\<lambda>item. bucket_of P key_of item = Some k) data"

text \<open>
  The sum of an array of numbers as \<^verbatim>\<open>reduce((sum, x) => sum + x, 0)\<close> computes it,
  and \<^verbatim>\<open>Math.round(x * 10) / 10\<close>.
\<close>

definition fsum :: "number list \<Rightarrow> number" where
  "fsum xs = foldl fadd (Finite 0) xs"

definition one_decimal :: "number \<Rightarrow> number" where
  "one_decimal x = fdiv (Math_round (fmul x (Finite 10))) (Finite 10)"

text \<open>A number that is a count, that is a natural number, and the value of a finite number.\<close>

definition is_count :: "number \<Rightarrow> bool" where
  "is_count x = (case x of Finite a \<Rightarrow> 0 \<le> a \<and> a = of_int \<lfloor>a\<rfloor> | PosInf \<Rightarrow> False
                 | NegInf \<Rightarrow> False | NaN \<Rightarrow> False)"

definition value_of :: "number \<Rightarrow> rat" where
  "value_of x = (case x of Finite a \<Rightarrow> a | PosInf \<Rightarrow> 0 | NegInf \<Rightarrow> 0 | NaN \<Rightarrow> 0)"

text \<open>
  The two success rates in the words of claims C2 and C4: the exact quotient, and the
  exact quotient rounded to one decimal place.
\<close>

definition claimed_successRate :: "nat \<Rightarrow> nat \<Rightarrow> rat" where
  "claimed_successRate completed n = (if n = 0 then 0 else 100 * of_nat completed / of_nat n)"

definition claimed_chart_rate :: "rat \<Rightarrow> rat \<Rightarrow> rat" where
  "claimed_chart_rate completed n =
     (if n = 0 then 0 else of_int \<lfloor>100 * completed / n * 10 + 1 / 2\<rfloor> / 10)"

text \<open>Three daily records in the window of \<open>now0\<close>, two of them of the same day.\<close>

definition three_days :: "DailyData list" where
  "three_days = [mk_daily ''2024-01-15'' 10 9 2, mk_daily ''2024-01-10'' 4 1 (1 / 4),
                 mk_daily ''2024-01-15'' 5 4 (1 / 2)]"

text \<open>A day with 80 sessions, 23 of them completed.\<close>

definition eighty_day :: "DailyData list" where
  "eighty_day = [mk_daily ''2024-01-15'' 80 23 2]"

text \<open>Twenty-five sessions of one day, 7 of them completed.\<close>

definition quarter_sessions :: "JobSession list" where
  "quarter_sessions = replicate 7 (mk_session ''2024-01-10'' 9 None ''Completed'')
                      @ replicate 18 (mk_session ''2024-01-10'' 9 None ''Incomplete'')"

text \<open>A session whose blank material type is replaced by \<^verbatim>\<open>null\<close>.\<close>

definition null_if_blank :: "JobSession \<Rightarrow> JobSession" where
  "null_if_blank s =
     s\<lparr> material_type := (case material_type s of None \<Rightarrow> None
                            | Some m \<Rightarrow> if m = [] then None else Some m) \<rparr>"

text \<open>One session in the window of \<open>now0\<close> and outside the window of \<open>now1\<close>.\<close>

definition january_session :: JobSession where
  "january_session = mk_session ''2024-01-10'' 9 (Some ''Pan Dental'') ''Completed''"

text \<open>
  A session with a blank material type, one with a blank material type that lasted
  30 minutes and was not completed, and one named as a member of \<^verbatim>\<open>Object.prototype\<close>.
\<close>

definition blank_session :: JobSession where
  "blank_session = mk_session ''2024-01-10'' 9 (Some []) ''Completed''"

definition blank_half_hour :: JobSession where
  "blank_half_hour =
     (mk_session ''2024-01-10'' 9 (Some []) ''Incomplete'')\<lparr> duration_minutes := Some (Finite 30) \<rparr>"

definition constructor_session :: JobSession where
  "constructor_session = mk_session ''2024-01-10'' 9 (Some ''constructor'') ''Completed''"

text \<open>
  A sessions document: a header row and two data rows, the first with an unparsable
  hour, a blank material type and a real duration, the second shorter than the header.
\<close>

definition sessions_csv :: string where
  "sessions_csv = ''session_id,start_hour,material_type,duration_minutes'' @ [newline]
                  @ ''7,abc,,2.5'' @ [newline] @ ''8,10''"

text \<open>A daily document whose data row has an unparsable number of hours.\<close>

definition daily_csv :: string where
  "daily_csv = ''start_date,total_sessions,utilization_hours'' @ [newline] @ ''2024-01-10, 12 ,x''"

text \<open>A sessions document with a column named \<^verbatim>\<open>__proto__\<close>.\<close>

definition proto_csv :: string where
  "proto_csv = ''session_id,__proto__'' @ [newline] @ ''7,x''"

section \<open>Properties of the parser\<close>

lemma set_trim_subset: "set (trim s) \<subseteq> set s"
proof -
  have "set (trim s) = set (dropWhile is_space (rev (dropWhile is_space s)))"
    by (simp add: trim_def)
  also have "\<dots> \<subseteq> set (rev (dropWhile is_space s))"
    using set_dropWhileD [of _ is_space "rev (dropWhile is_space s)"] by auto
  also have "\<dots> \<subseteq> set s"
    using set_dropWhileD [of _ is_space s] by auto
  finally show ?thesis .
qed

lemma parse_chars_no_quote:
  assumes "\<forall>v \<in> set values. dquote \<notin> set v" and "dquote \<notin> set current"
  shows "\<forall>v \<in> set (parse_chars line values current inQuotes). dquote \<notin> set v"
  using assms
proof (induction line "values" current inQuotes rule: parse_chars.induct)
  case (1 vs current inQuotes)
  then show ?case using set_trim_subset [of current] by auto
next
  case (2 c cs vs current inQuotes)
  have t: "dquote \<notin> set (trim current)"
    using "2.prems"(2) set_trim_subset [of current] by auto
  show ?case
  proof (cases "c = dquote")
    case True
    then show ?thesis using "2.IH"(1) "2.prems" by simp
  next
    case False
    show ?thesis
    proof (cases "c = comma \<and> \<not> inQuotes")
      case True
      then show ?thesis using False "2.IH"(2) "2.prems"(1) t by simp
    next
      case nosplit: False
      then show ?thesis using False "2.IH"(3) "2.prems" by auto
    qed
  qed
qed

lemma parse_chars_quoted_span:
  assumes "dquote \<notin> set inner"
  shows "parse_chars (inner @ dquote # rest) values current True
       = parse_chars rest values (current @ inner) False"
  using assms
proof (induction inner arbitrary: current)
  case Nil
  then show ?case by simp
next
  case (Cons c inner)
  then have "c \<noteq> dquote" and "dquote \<notin> set inner" by auto
  then show ?case using Cons.IH [of "current @ [c]"] by simp
qed

text \<open>
  C8. A comma inside a double-quoted span does not split the field: a span
  \<^verbatim>\<open>"inner"\<close> met outside quotes appends \<^verbatim>\<open>inner\<close>, commas included, to the field being
  read and leaves the parser outside quotes. No field of any row that \<^verbatim>\<open>parseCSV\<close>
  returns contains a double-quote character, since the character only toggles the
  state. The line \<^verbatim>\<open>"A,B"\<close> gives the single field \<^verbatim>\<open>A,B\<close>.
\<close>

theorem parseCSV_quotes:
  "(dquote \<notin> set inner \<longrightarrow>
      parse_chars (dquote # inner @ dquote # rest) values current False
        = parse_chars rest values (current @ inner) False)
   \<and> (\<forall>field \<in> set (parseLine line). dquote \<notin> set field)
   \<and> (\<forall>row \<in> set (parseCSV csvText). \<forall>field \<in> set row. dquote \<notin> set field)
   \<and> parseLine (dquote # ''A,B'' @ [dquote]) = [''A,B'']
   \<and> parseCSV (''x, '' @ dquote # ''A,B'' @ dquote # '',y'') = [[''x'', ''A,B'', ''y'']]"
proof -
  have span: "dquote \<notin> set inner \<longrightarrow>
      parse_chars (dquote # inner @ dquote # rest) values current False
        = parse_chars rest values (current @ inner) False"
    using parse_chars_quoted_span [of inner rest "values" current] by simp
  have line: "\<forall>field \<in> set (parseLine l). dquote \<notin> set field" for l
    unfolding parseLine_def by (rule parse_chars_no_quote) simp_all
  have rows: "\<forall>row \<in> set (parseCSV csvText). \<forall>field \<in> set row. dquote \<notin> set field"
    unfolding parseCSV_def using line by auto
  have ex1: "parseLine (dquote # ''A,B'' @ [dquote]) = [''A,B'']"
    by (simp add: parseLine_def dquote_def comma_def trim_def is_space_def)
  have ex2: "parseCSV (''x, '' @ dquote # ''A,B'' @ dquote # '',y'') = [[''x'', ''A,B'', ''y'']]"
    by (simp add: parseCSV_def parseLine_def dquote_def comma_def newline_def trim_def is_space_def)
  show ?thesis using span line rows ex1 ex2 by blast
qed

theorem parseCSV_quotes_witness:
  "dquote \<notin> set ''A,B''
   \<and> parse_chars (dquote # ''A,B'' @ dquote # '',y'') [''x''] [] False
        = parse_chars '',y'' [''x''] ''A,B'' False
   \<and> parse_chars '',y'' [''x''] ''A,B'' False = [''x'', ''A,B'', ''y'']
   \<and> ''A,B'' \<in> set (parseLine (''x,'' @ dquote # ''A,B'' @ dquote # '',y''))
   \<and> dquote \<notin> set ''A,B''
   \<and> [''x'', ''A,B'', ''y''] \<in> set (parseCSV (''x,'' @ dquote # ''A,B'' @ dquote # '',y''))"
proof -
  have h: "dquote \<notin> set ''A,B''" by (simp add: dquote_def)
  have e: "parse_chars '',y'' [''x''] ''A,B'' False = [''x'', ''A,B'', ''y'']"
    by (simp add: dquote_def comma_def trim_def is_space_def)
  have l: "parseLine (''x,'' @ dquote # ''A,B'' @ dquote # '',y'') = [''x'', ''A,B'', ''y'']"
    by (simp add: parseLine_def dquote_def comma_def trim_def is_space_def)
  have c: "parseCSV (''x,'' @ dquote # ''A,B'' @ dquote # '',y'') = [[''x'', ''A,B'', ''y'']]"
    by (simp add: parseCSV_def parseLine_def dquote_def comma_def newline_def trim_def is_space_def)
  from parseCSV_quotes [of "''A,B''" "'',y''" "[''x'']" "[]"
      "''x,'' @ dquote # ''A,B'' @ dquote # '',y''" "''x,'' @ dquote # ''A,B'' @ dquote # '',y''"] h
  have "parse_chars (dquote # ''A,B'' @ dquote # '',y'') [''x''] [] False
        = parse_chars '',y'' [''x''] ''A,B'' False"
    by simp
  then show ?thesis using h e l c by simp
qed

section \<open>Rounding to a double\<close>

lemma ilog2_bounds: "1 \<le> n \<Longrightarrow> 2 ^ ilog2 n \<le> n \<and> n < 2 ^ Suc (ilog2 n)"
proof (induction n rule: ilog2.induct)
  case (1 n)
  show ?case
  proof (cases "n < 2")
    case True
    with "1.prems" have "n = 1" by simp
    then show ?thesis by (simp add: ilog2.simps)
  next
    case False
    then have h: "1 \<le> n div 2" by simp
    from "1.IH" [OF False h]
    have a: "2 ^ ilog2 (n div 2) \<le> n div 2" and b: "n div 2 < 2 ^ Suc (ilog2 (n div 2))"
      by simp_all
    have s: "ilog2 n = Suc (ilog2 (n div 2))"
      using False by (simp add: ilog2.simps)
    from a have "2 * 2 ^ ilog2 (n div 2) \<le> n" by linarith
    moreover from b have "n < 2 * 2 ^ Suc (ilog2 (n div 2))" by linarith
    ultimately show ?thesis by (simp add: s)
  qed
qed

lemma pow2_le_of_int: "2 ^ k \<le> n \<Longrightarrow> (2 :: rat) ^ k \<le> of_int n"
  by simp

lemma of_int_le_pow2: "n \<le> 2 ^ k \<Longrightarrow> of_int n \<le> (2 :: rat) ^ k"
  by simp

lemma pow2_powi: "pow2 k = 2 powi k"
  by (simp add: pow2_def power_int_def inverse_eq_divide power_one_over)

lemma pow2_pos: "0 < pow2 k"
  by (simp add: pow2_powi)

lemma pow2_nat: "pow2 (int n) = 2 ^ n"
  by (simp add: pow2_powi)

lemma pow2_add: "pow2 (a + b) = pow2 a * pow2 b"
  by (simp add: pow2_powi power_int_add)

lemma pow2_diff: "pow2 (a - b) = pow2 a / pow2 b"
  by (simp add: pow2_powi power_int_diff)

lemma pow2_neg: "pow2 (- int n) = 1 / 2 ^ n"
  by (simp add: pow2_powi power_int_minus inverse_eq_divide)

lemma pow2_mono: "a \<le> b \<Longrightarrow> pow2 a \<le> pow2 b"
  by (simp add: pow2_powi power_int_increasing)

lemma pow2_less_imp: "pow2 a < pow2 b \<Longrightarrow> a < b"
  using pow2_mono [of b a] by (cases "a < b") auto

lemma exponent_bounds:
  assumes "0 < x"
  shows "pow2 (exponent x) \<le> x \<and> x < pow2 (exponent x + 1)"
proof (cases "1 \<le> x")
  case True
  define n where "n = \<lfloor>x\<rfloor>"
  from True have n1: "1 \<le> n" by (simp add: n_def le_floor_iff)
  have e: "exponent x = int (ilog2 n)"
    using True by (simp add: exponent_def n_def)
  from ilog2_bounds [OF n1] have a: "2 ^ ilog2 n \<le> n" and b: "n + 1 \<le> 2 ^ Suc (ilog2 n)"
    by simp_all
  have "(2 :: rat) ^ ilog2 n \<le> of_int n" using a by (rule pow2_le_of_int)
  moreover have "of_int n \<le> x" unfolding n_def by linarith
  ultimately have l: "pow2 (exponent x) \<le> x" unfolding e pow2_nat by linarith
  have "x < of_int (n + 1)" unfolding n_def by linarith
  moreover have "of_int (n + 1) \<le> (2 :: rat) ^ Suc (ilog2 n)"
    using b by (rule of_int_le_pow2)
  ultimately have "x < 2 ^ Suc (ilog2 n)" by linarith
  moreover have "pow2 (exponent x + 1) = 2 ^ Suc (ilog2 n)"
    using pow2_nat [of "Suc (ilog2 n)"] by (simp add: e add.commute)
  ultimately show ?thesis using l by simp
next
  case False
  define y where "y = 1 / x"
  define m where "m = \<lceil>y\<rceil> - 1"
  from False assms have y1: "1 < y" by (simp add: y_def)
  then have m1: "1 \<le> m" unfolding m_def by linarith
  have my: "of_int m < y" and ym: "y \<le> of_int m + 1"
    unfolding m_def by linarith+
  have e: "exponent x = - int (Suc (ilog2 m))"
    using False by (simp add: exponent_def m_def y_def)
  from ilog2_bounds [OF m1] have a: "2 ^ ilog2 m \<le> m" and b: "m + 1 \<le> 2 ^ Suc (ilog2 m)"
    by simp_all
  have "(2 :: rat) ^ ilog2 m \<le> of_int m" using a by (rule pow2_le_of_int)
  with my have lo: "2 ^ ilog2 m < y" by linarith
  have "of_int (m + 1) \<le> (2 :: rat) ^ Suc (ilog2 m)"
    using b by (rule of_int_le_pow2)
  moreover have "y \<le> of_int (m + 1)" using ym by simp
  ultimately have hi: "y \<le> 2 ^ Suc (ilog2 m)" by linarith
  have xy: "1 / y = x" by (simp add: y_def)
  have ypos: "0 < y" using y1 by simp
  have "1 / 2 ^ Suc (ilog2 m) \<le> 1 / y"
    using hi ypos by (simp add: frac_le)
  then have "1 / 2 ^ Suc (ilog2 m) \<le> x" by (simp only: xy)
  then have l: "pow2 (exponent x) \<le> x" by (simp only: e pow2_neg)
  have "1 / y < 1 / 2 ^ ilog2 m"
    using lo by (simp add: frac_less2)
  then have "x < 1 / 2 ^ ilog2 m" by (simp only: xy)
  moreover have "pow2 (exponent x + 1) = 1 / 2 ^ ilog2 m"
    using pow2_neg [of "ilog2 m"] by (simp add: e)
  ultimately show ?thesis using l by simp
qed

lemma exponent_less:
  assumes "0 < x" and "x < pow2 k"
  shows "exponent x < k"
proof -
  from exponent_bounds [OF assms(1)] assms(2) have "pow2 (exponent x) < pow2 k" by simp
  then show ?thesis by (rule pow2_less_imp)
qed

lemma exponent_ge:
  assumes "pow2 k \<le> x"
  shows "k \<le> exponent x"
proof -
  have "0 < x" using pow2_pos [of k] assms by simp
  from exponent_bounds [OF this] assms have "pow2 k < pow2 (exponent x + 1)" by simp
  then have "k < exponent x + 1" by (rule pow2_less_imp)
  then show ?thesis by simp
qed

lemma round_half_even_error: "\<bar>of_int (round_half_even q) - q\<bar> \<le> 1 / 2"
proof -
  have "0 \<le> q - of_int \<lfloor>q\<rfloor>" "q - of_int \<lfloor>q\<rfloor> < 1" by linarith+
  then show ?thesis
    by (auto simp: round_half_even_def Let_def abs_le_iff)
qed

lemma round_half_even_of_int: "round_half_even (of_int k) = k"
  by (simp add: round_half_even_def Let_def)

lemma round_double_error:
  "\<bar>round_double x - x\<bar> \<le> pow2 (max (exponent \<bar>x\<bar>) (- 1022) - 53)"
proof (cases "x = 0")
  case True
  then show ?thesis using pow2_pos [of "max (exponent \<bar>x\<bar>) (- 1022) - 53"]
    by (simp add: round_double_def)
next
  case False
  define ulp where "ulp = pow2 (max (exponent \<bar>x\<bar>) (- 1022) - 52)"
  have up: "0 < ulp" by (simp add: ulp_def pow2_pos)
  have r: "round_double x = of_int (round_half_even (x / ulp)) * ulp"
    using False by (simp add: round_double_def ulp_def Let_def)
  have "\<bar>of_int (round_half_even (x / ulp)) - x / ulp\<bar> * ulp \<le> 1 / 2 * ulp"
    using round_half_even_error [of "x / ulp"] up by (simp only: mult_right_mono less_imp_le)
  moreover have "\<bar>of_int (round_half_even (x / ulp)) - x / ulp\<bar> * ulp
      = \<bar>of_int (round_half_even (x / ulp)) * ulp - x\<bar>"
  proof -
    have "\<bar>of_int (round_half_even (x / ulp)) - x / ulp\<bar> * ulp
        = \<bar>(of_int (round_half_even (x / ulp)) - x / ulp) * ulp\<bar>"
      using up by (simp add: abs_mult)
    also have "(of_int (round_half_even (x / ulp)) - x / ulp) * ulp
        = of_int (round_half_even (x / ulp)) * ulp - x"
      using up by (simp add: algebra_simps)
    finally show ?thesis .
  qed
  moreover have "1 / 2 * ulp = pow2 (max (exponent \<bar>x\<bar>) (- 1022) - 53)"
  proof -
    have "max (exponent \<bar>x\<bar>) (- 1022) - 52 = (max (exponent \<bar>x\<bar>) (- 1022) - 53) + 1"
      by simp
    then have "ulp = pow2 (max (exponent \<bar>x\<bar>) (- 1022) - 53) * pow2 1"
      unfolding ulp_def by (simp only: pow2_add)
    then show ?thesis by (simp add: pow2_def)
  qed
  ultimately show ?thesis by (simp add: r)
qed

text \<open>Half the distance between the two smallest positive doubles.\<close>

lemma round_double_bound: "\<bar>round_double x - x\<bar> \<le> \<bar>x\<bar> / 2 ^ 53 + pow2 (- 1075)"
proof (cases "x = 0")
  case True
  then show ?thesis using pow2_pos [of "- 1075"] by (simp add: round_double_def)
next
  case False
  then have pos: "0 < \<bar>x\<bar>" by simp
  note b = round_double_error [of x]
  show ?thesis
  proof (cases "- 1022 \<le> exponent \<bar>x\<bar>")
    case True
    then have "max (exponent \<bar>x\<bar>) (- 1022) - 53 = exponent \<bar>x\<bar> - 53" by simp
    then have "pow2 (max (exponent \<bar>x\<bar>) (- 1022) - 53) = pow2 (exponent \<bar>x\<bar>) / 2 ^ 53"
      using pow2_nat [of 53] by (simp add: pow2_diff)
    also have "\<dots> \<le> \<bar>x\<bar> / 2 ^ 53"
      using exponent_bounds [OF pos] by (simp add: divide_right_mono)
    finally show ?thesis using b pow2_pos [of "- 1075"] by linarith
  next
    case False
    then have "max (exponent \<bar>x\<bar>) (- 1022) - 53 = - 1075" by simp
    then show ?thesis using b by simp
  qed
qed

lemma to_double_error:
  assumes "\<bar>x\<bar> \<le> 2 ^ 1023"
  shows "\<exists>e. to_double x = Finite (x + e) \<and> \<bar>e\<bar> \<le> \<bar>x\<bar> / 2 ^ 53 + pow2 (- 1075)"
proof -
  define y where "y = round_double x"
  have b: "\<bar>y - x\<bar> \<le> \<bar>x\<bar> / 2 ^ 53 + pow2 (- 1075)"
    unfolding y_def by (rule round_double_bound)
  have fin: "\<not> 1024 \<le> exponent \<bar>y\<bar>" if "y \<noteq> 0"
  proof -
    have "pow2 (- 1075) \<le> pow2 0" by (rule pow2_mono) simp
    then have t: "pow2 (- 1075) \<le> 1" by (simp add: pow2_def)
    have "\<bar>x\<bar> / 2 ^ 53 \<le> \<bar>x\<bar> / 2"
      by (rule divide_left_mono) simp_all
    with b t have "\<bar>y\<bar> \<le> \<bar>x\<bar> + \<bar>x\<bar> / 2 + 1" by linarith
    also have "\<dots> \<le> 2 ^ 1023 + 2 ^ 1023 / 2 + 1" using assms by linarith
    also have "\<dots> < (2 :: rat) ^ 1024" by simp
    finally have "\<bar>y\<bar> < pow2 1024" using pow2_nat [of 1024] by simp
    moreover from that have "0 < \<bar>y\<bar>" by simp
    ultimately have "exponent \<bar>y\<bar> < 1024" by (rule exponent_less [rotated])
    then show ?thesis by simp
  qed
  have "to_double x = Finite y"
    using fin by (auto simp: to_double_def y_def [symmetric] Let_def)
  then have "to_double x = Finite (x + (y - x))" by simp
  with b show ?thesis by blast
qed

lemma round_double_integral:
  assumes "x \<noteq> 0" and "x / pow2 (max (exponent \<bar>x\<bar>) (- 1022) - 52) = of_int k"
  shows "round_double x = x"
proof -
  have "0 < pow2 (max (exponent \<bar>x\<bar>) (- 1022) - 52)" by (rule pow2_pos)
  then show ?thesis
    using assms by (simp add: round_double_def Let_def round_half_even_of_int)
      (metis nonzero_divide_eq_eq less_irrefl)
qed

lemma to_double_of_int:
  assumes "\<bar>k\<bar> < 2 ^ 53"
  shows "to_double (of_int k) = Finite (of_int k)"
proof (cases "k = 0")
  case True
  then show ?thesis by (simp add: to_double_def round_double_def)
next
  case False
  define x :: rat where "x = of_int k"
  define e where "e = exponent \<bar>x\<bar>"
  have x0: "x \<noteq> 0" using False by (simp add: x_def)
  have "1 \<le> \<bar>k\<bar>" using False by simp
  then have "(1 :: rat) \<le> of_int \<bar>k\<bar>" by (simp only: of_int_1_le_iff)
  then have x1: "1 \<le> \<bar>x\<bar>" by (simp add: x_def)
  have "(of_int \<bar>k\<bar> :: rat) < of_int (2 ^ 53)" using assms by (simp only: of_int_less_iff)
  then have x2: "\<bar>x\<bar> < 2 ^ 53" by (simp add: x_def)
  have e0: "0 \<le> e"
    unfolding e_def using x1 by (intro exponent_ge) (simp add: pow2_def)
  have e53: "e < 53"
    unfolding e_def using x1 x2 pow2_nat [of 53] by (intro exponent_less) simp_all
  define s where "s = nat (52 - e)"
  have ulp: "pow2 (max e (- 1022) - 52) = 1 / 2 ^ s"
  proof -
    have "max e (- 1022) - 52 = - int s" using e0 e53 by (simp add: s_def)
    then show ?thesis by (simp only: pow2_neg)
  qed
  have "x / pow2 (max e (- 1022) - 52) = of_int (k * 2 ^ s)"
    by (simp add: ulp x_def)
  then have r: "round_double x = x"
    using x0 unfolding e_def by (rule round_double_integral [rotated])
  have "\<not> 1024 \<le> exponent \<bar>x\<bar>" using e53 by (simp add: e_def)
  then show ?thesis
    using x0 by (simp add: to_double_def r Let_def x_def [symmetric])
qed

lemma to_double_of_nat: "n < 2 ^ 53 \<Longrightarrow> to_double (of_nat n) = Finite (of_nat n)"
  using to_double_of_int [of "int n"] by simp

lemma tiny_bound: "0 < pow2 (- 1075)" "pow2 (- 1075) \<le> 1 / 2 ^ 200"
proof -
  have "pow2 (- 1075) \<le> pow2 (- 200)" by (rule pow2_mono) simp
  moreover have "pow2 (- 200) = 1 / 2 ^ 200" using pow2_neg [of 200] by simp
  ultimately show "pow2 (- 1075) \<le> 1 / 2 ^ 200" by simp
  show "0 < pow2 (- 1075)" by (rule pow2_pos)
qed

lemma value_of_Finite: "value_of (Finite a) = a"
  by (simp add: value_of_def)

lemma fmul_error:
  assumes "\<bar>a * b\<bar> \<le> 2 ^ 1023"
  shows "\<exists>e. fmul (Finite a) (Finite b) = Finite (a * b + e)
           \<and> \<bar>e\<bar> \<le> \<bar>a * b\<bar> / 2 ^ 53 + pow2 (- 1075)"
  using to_double_error [OF assms] by simp

lemma fdiv_error:
  assumes "b \<noteq> 0" and "\<bar>a / b\<bar> \<le> 2 ^ 1023"
  shows "\<exists>e. fdiv (Finite a) (Finite b) = Finite (a / b + e)
           \<and> \<bar>e\<bar> \<le> \<bar>a / b\<bar> / 2 ^ 53 + pow2 (- 1075)"
  using to_double_error [OF assms(2)] assms(1) by simp

lemma fadd_error:
  assumes "\<bar>a + b\<bar> \<le> 2 ^ 1023"
  shows "\<exists>e. fadd (Finite a) (Finite b) = Finite (a + b + e)
           \<and> \<bar>e\<bar> \<le> \<bar>a + b\<bar> / 2 ^ 53 + pow2 (- 1075)"
  using to_double_error [OF assms] by simp

text \<open>A sum of counts is exact as long as it stays below \<open>2\<^sup>5\<^sup>3\<close>.\<close>

lemma is_count_nat: "is_count x \<longleftrightarrow> (\<exists>n :: nat. x = Finite (of_nat n))"
proof
  assume "is_count x"
  then obtain a where x: "x = Finite a" and a: "0 \<le> a" "a = of_int \<lfloor>a\<rfloor>"
    by (auto simp: is_count_def split: number.splits)
  from a have "0 \<le> \<lfloor>a\<rfloor>" by simp
  then have "of_nat (nat \<lfloor>a\<rfloor>) = (of_int \<lfloor>a\<rfloor> :: rat)" by simp
  with a have "a = of_nat (nat \<lfloor>a\<rfloor>)" by simp
  with x show "\<exists>n :: nat. x = Finite (of_nat n)" by blast
next
  assume "\<exists>n :: nat. x = Finite (of_nat n)"
  then show "is_count x" by (auto simp: is_count_def)
qed

lemma fadd_counts:
  assumes "m + n < 2 ^ 53"
  shows "fadd (Finite (of_nat m)) (Finite (of_nat n)) = Finite (of_nat (m + n))"
  using to_double_of_nat [OF assms] by simp

lemma foldl_fadd_counts:
  assumes "list_all is_count xs" and "of_nat m + sum_list (map value_of xs) < 2 ^ 53"
  shows "foldl fadd (Finite (of_nat m)) xs = Finite (of_nat m + sum_list (map value_of xs))"
  using assms
proof (induction xs arbitrary: m)
  case Nil
  show ?case by simp
next
  case (Cons x xs)
  from Cons.prems(1) obtain n :: nat where x: "x = Finite (of_nat n)"
    by (auto simp: is_count_nat)
  have rest: "0 \<le> sum_list (map value_of xs)"
    using Cons.prems(1)
    by (intro sum_list_nonneg) (auto simp: list_all_iff is_count_def value_of_def split: number.splits)
  from Cons.prems(2) have total: "of_nat (m + n) + sum_list (map value_of xs) < 2 ^ 53"
    by (simp add: x value_of_Finite add.assoc)
  with rest have "(of_nat (m + n) :: rat) < 2 ^ 53" by linarith
  then have "(of_nat (m + n) :: rat) < of_nat (2 ^ 53)" by simp
  then have "m + n < 2 ^ 53" by (simp only: of_nat_less_iff)
  then have step: "fadd (Finite (of_nat m)) x = Finite (of_nat (m + n))"
    unfolding x by (rule fadd_counts)
  from Cons.prems(1) have "list_all is_count xs" by simp
  from Cons.IH [OF this total]
  have "foldl fadd (Finite (of_nat (m + n))) xs
      = Finite (of_nat (m + n) + sum_list (map value_of xs))" .
  moreover have "foldl fadd (Finite (of_nat m)) (x # xs) = foldl fadd (Finite (of_nat (m + n))) xs"
    by (simp only: foldl_Cons step)
  moreover have "of_nat (m + n) + sum_list (map value_of xs)
      = of_nat m + sum_list (map value_of (x # xs))"
    by (simp add: x value_of_Finite)
  ultimately show ?case by simp
qed

lemma fsum_counts:
  assumes "list_all is_count xs" and "sum_list (map value_of xs) < 2 ^ 53"
  shows "fsum xs = Finite (sum_list (map value_of xs))"
  using foldl_fadd_counts [of xs 0] assms by (simp add: fsum_def)

text \<open>\<^verbatim>\<open>Math.round(x * 10) / 10\<close> is within one twentieth of \<open>x\<close>, up to the two roundings.\<close>

lemma one_decimal_error:
  assumes "\<bar>x\<bar> \<le> 2 ^ 64"
  shows "\<exists>r. one_decimal (Finite x) = Finite r \<and> \<bar>r - x\<bar> \<le> 1 / 20 + (1 + \<bar>x\<bar>) / 2 ^ 50"
proof -
  define t where "t = pow2 (- 1075)"
  note t = tiny_bound [folded t_def]
  have "\<bar>x * 10\<bar> \<le> 2 ^ 1023" using assms by simp
  from fmul_error [OF this] obtain e1
    where m1: "fmul (Finite x) (Finite 10) = Finite (x * 10 + e1)"
      and e1: "\<bar>e1\<bar> \<le> \<bar>x * 10\<bar> / 2 ^ 53 + t"
    unfolding t_def by blast
  define m :: rat where "m = of_int \<lfloor>x * 10 + e1 + 1 / 2\<rfloor>"
  have r: "Math_round (Finite (x * 10 + e1)) = Finite m"
    by (simp add: Math_round_def m_def)
  have m: "\<bar>m - (x * 10 + e1)\<bar> \<le> 1 / 2"
    unfolding m_def by linarith
  have mb: "\<bar>m\<bar> \<le> 2 ^ 70"
    using m e1 t assms
    by (auto simp: abs_le_iff abs_if add_divide_distrib algebra_simps split: if_splits)
  then have "\<bar>m / 10\<bar> \<le> 2 ^ 1023" by simp
  from fdiv_error [OF _ this] obtain e2
    where d: "fdiv (Finite m) (Finite 10) = Finite (m / 10 + e2)"
      and e2: "\<bar>e2\<bar> \<le> \<bar>m / 10\<bar> / 2 ^ 53 + t"
    unfolding t_def by auto
  have res: "one_decimal (Finite x) = Finite (m / 10 + e2)"
    by (simp only: one_decimal_def m1 r d)
  have "\<bar>m / 10 + e2 - x\<bar> \<le> 1 / 20 + (1 + \<bar>x\<bar>) / 2 ^ 50"
    using m e1 e2 t
    by (auto simp: abs_le_iff abs_if add_divide_distrib algebra_simps split: if_splits)
  with res show ?thesis by blast
qed

text \<open>
  The success rate \<^verbatim>\<open>(completed / total) * 100\<close> of two counts: two roundings, each
  of relative size at most \<open>2\<^sup>-\<^sup>5\<^sup>3\<close>.
\<close>

lemma rate_error:
  assumes "0 \<le> c" and "0 < n" and "c = 0 \<or> 1 / 2 ^ 64 \<le> c / n" and "c / n \<le> 2 ^ 64"
  shows "\<exists>r. fmul (fdiv (Finite c) (Finite n)) (Finite 100) = Finite r
           \<and> \<bar>r - 100 * c / n\<bar> \<le> (100 * c / n) / 2 ^ 51"
proof (cases "c = 0")
  case True
  then show ?thesis using assms(2) by (simp add: to_double_def round_double_def)
next
  case False
  define q where "q = c / n"
  from False assms have q: "1 / 2 ^ 64 \<le> q" "q \<le> 2 ^ 64" by (simp_all add: q_def)
  define t where "t = pow2 (- 1075)"
  note t = tiny_bound [folded t_def]
  have "\<bar>q\<bar> \<le> 2 ^ 64" using q by simp
  then have "\<bar>c / n\<bar> \<le> 2 ^ 1023" unfolding q_def by simp
  from fdiv_error [OF _ this] assms(2) obtain e1
    where d: "fdiv (Finite c) (Finite n) = Finite (q + e1)"
      and e1: "\<bar>e1\<bar> \<le> \<bar>q\<bar> / 2 ^ 53 + t"
    unfolding t_def by (auto simp: q_def)
  have "\<bar>(q + e1) * 100\<bar> \<le> 2 ^ 80" using q e1 t
    by (auto simp: abs_le_iff abs_if add_divide_distrib algebra_simps split: if_splits)
  then have "\<bar>(q + e1) * 100\<bar> \<le> 2 ^ 1023" by simp
  from fmul_error [OF this] obtain e2
    where m: "fmul (Finite (q + e1)) (Finite 100) = Finite ((q + e1) * 100 + e2)"
      and e2: "\<bar>e2\<bar> \<le> \<bar>(q + e1) * 100\<bar> / 2 ^ 53 + t"
    unfolding t_def by blast
  have "\<bar>(q + e1) * 100 + e2 - 100 * q\<bar> \<le> (100 * q) / 2 ^ 51"
    using q e1 e2 t
    by (auto simp: abs_le_iff abs_if add_divide_distrib algebra_simps split: if_splits)
  then have "\<bar>(q + e1) * 100 + e2 - 100 * c / n\<bar> \<le> (100 * c / n) / 2 ^ 51"
    by (simp add: q_def)
  with d m show ?thesis by simp
qed

section \<open>Sorting\<close>

lemma sort_by_Cons: "sort_by cmp (x # xs) = insert_by cmp x (sort_by cmp xs)"
  by (simp add: sort_by_def)

lemma sort_by_Nil: "sort_by cmp [] = []"
  by (simp add: sort_by_def)

lemma mset_insert_by: "mset (insert_by cmp x ys) = add_mset x (mset ys)"
  by (induction ys) auto

lemma mset_sort_by: "mset (sort_by cmp xs) = mset xs"
  by (induction xs) (simp_all add: sort_by_Nil sort_by_Cons mset_insert_by)

lemma set_sort_by: "set (sort_by cmp xs) = set xs"
  using mset_sort_by [of cmp xs] by (metis set_mset_mset)

lemma length_sort_by: "length (sort_by cmp xs) = length xs"
  using mset_sort_by [of cmp xs] by (metis size_mset)

lemma length_filter_mset: "mset xs = mset ys \<Longrightarrow> length (filter Q xs) = length (filter Q ys)"
  by (metis mset_filter size_mset)

lemma length_filter_sort_by: "length (filter Q (sort_by cmp xs)) = length (filter Q xs)"
  by (rule length_filter_mset) (rule mset_sort_by)

text \<open>The engine's order of an array is a permutation of the array.\<close>

lemma mset_reorder: "mset (reorder idx xs) = mset xs"
proof (cases "sort idx = [0 ..< length xs]")
  case True
  then have "mset idx = mset [0 ..< length xs]" by (metis mset_sort)
  then have "mset (map (\<lambda>i. xs ! i) idx) = mset (map (\<lambda>i. xs ! i) [0 ..< length xs])"
    by (metis mset_map)
  then show ?thesis using True by (simp add: reorder_def map_nth)
next
  case False
  then show ?thesis by (simp add: reorder_def)
qed

lemma reorder_map: "reorder idx (map f xs) = map f (reorder idx xs)"
proof (cases "sort idx = [0 ..< length xs]")
  case True
  then have "set idx = set [0 ..< length xs]" by (metis set_sort)
  then have "\<forall>i \<in> set idx. i < length xs" by simp
  then have "map (\<lambda>i. map f xs ! i) idx = map (\<lambda>i. f (xs ! i)) idx" by simp
  then show ?thesis using True by (simp add: reorder_def comp_def)
next
  case False
  then show ?thesis by (simp add: reorder_def)
qed

lemma mset_recentSort: "mset (recentSort P xs) = mset xs"
  by (simp add: recentSort_def mset_sort_by mset_reorder)

lemma set_recentSort: "set (recentSort P xs) = set xs"
  using mset_recentSort [of P xs] by (metis set_mset_mset)

lemma length_recentSort: "length (recentSort P xs) = length xs"
  using mset_recentSort [of P xs] by (metis size_mset)

lemma length_filter_recentSort: "length (filter Q (recentSort P xs)) = length (filter Q xs)"
  by (rule length_filter_mset) (rule mset_recentSort)

lemma recentSort_valid:
  "list_all (\<lambda>s. session_time P s \<noteq> None) xs \<Longrightarrow> recentSort P xs = sort_by (recent_cmp P) xs"
  by (simp add: recentSort_def consistent_times_def list_all_iff)

lemma recentSort_Nil: "recentSort P [] = []"
  by (simp add: recentSort_def consistent_times_def sort_by_Nil)

text \<open>
  A comparator that is total and transitive on the elements of the array sorts it,
  and one that compares a key sorts it by the key, keeping the order of equal keys.
\<close>

lemma set_insert_by: "set (insert_by cmp x ys) = insert x (set ys)"
  by (induction ys) auto

lemma sorted_wrt_insert_by:
  assumes tot: "\<And>a b. a \<in> S \<Longrightarrow> b \<in> S \<Longrightarrow> cmp a b \<le> 0 \<or> cmp b a \<le> 0"
    and tr: "\<And>a b c. a \<in> S \<Longrightarrow> b \<in> S \<Longrightarrow> c \<in> S \<Longrightarrow> cmp a b \<le> 0 \<Longrightarrow> cmp b c \<le> 0
               \<Longrightarrow> cmp a c \<le> 0"
    and x: "x \<in> S"
  shows "set ys \<subseteq> S \<Longrightarrow> sorted_wrt (\<lambda>a b. cmp a b \<le> 0) ys
         \<Longrightarrow> sorted_wrt (\<lambda>a b. cmp a b \<le> 0) (insert_by cmp x ys)"
proof (induction ys)
  case Nil
  show ?case by simp
next
  case (Cons y ys)
  from Cons.prems have y: "y \<in> S" and ys: "set ys \<subseteq> S"
    and after: "\<forall>z \<in> set ys. cmp y z \<le> 0" and s: "sorted_wrt (\<lambda>a b. cmp a b \<le> 0) ys"
    by simp_all
  show ?case
  proof (cases "cmp x y \<le> 0")
    case True
    have "cmp x z \<le> 0" if "z \<in> set ys" for z
    proof -
      from that after have "cmp y z \<le> 0" by simp
      moreover from that ys have "z \<in> S" by auto
      ultimately show ?thesis using tr [OF x y _ True] by simp
    qed
    with True Cons.prems(2) show ?thesis by simp
  next
    case False
    with tot [OF x y] have yx: "cmp y x \<le> 0" by simp
    have "sorted_wrt (\<lambda>a b. cmp a b \<le> 0) (insert_by cmp x ys)"
      by (rule Cons.IH [OF ys s])
    moreover have "\<forall>z \<in> set (insert_by cmp x ys). cmp y z \<le> 0"
      using yx after by (simp add: set_insert_by)
    ultimately show ?thesis using False by simp
  qed
qed

lemma sorted_wrt_sort_by:
  assumes tot: "\<And>a b. a \<in> S \<Longrightarrow> b \<in> S \<Longrightarrow> cmp a b \<le> 0 \<or> cmp b a \<le> 0"
    and tr: "\<And>a b c. a \<in> S \<Longrightarrow> b \<in> S \<Longrightarrow> c \<in> S \<Longrightarrow> cmp a b \<le> 0 \<Longrightarrow> cmp b c \<le> 0
               \<Longrightarrow> cmp a c \<le> 0"
  shows "set xs \<subseteq> S \<Longrightarrow> sorted_wrt (\<lambda>a b. cmp a b \<le> 0) (sort_by cmp xs)"
proof (induction xs)
  case Nil
  show ?case by (simp add: sort_by_Nil)
next
  case (Cons x xs)
  then have x: "x \<in> S" and xs: "set xs \<subseteq> S" by simp_all
  have "set (sort_by cmp xs) \<subseteq> S" using xs by (simp add: set_sort_by)
  from sorted_wrt_insert_by [of S cmp x, OF tot tr x this Cons.IH [OF xs]]
  show ?case by (simp add: sort_by_Cons)
qed

lemma insert_by_insort_key:
  "\<forall>y \<in> set ys. (cmp x y \<le> 0) = (f x \<le> f y) \<Longrightarrow> insert_by cmp x ys = insort_key f x ys"
  by (induction ys) simp_all

lemma sort_by_sort_key:
  "\<forall>x \<in> set xs. \<forall>y \<in> set xs. (cmp x y \<le> 0) = (f x \<le> f y) \<Longrightarrow> sort_by cmp xs = sort_key f xs"
proof (induction xs)
  case Nil
  show ?case by (simp add: sort_by_Nil)
next
  case (Cons x xs)
  then have IH: "sort_by cmp xs = sort_key f xs" by simp
  have "\<forall>y \<in> set (sort_key f xs). (cmp x y \<le> 0) = (f x \<le> f y)"
    using Cons.prems by simp
  then have "insert_by cmp x (sort_key f xs) = insort_key f x (sort_key f xs)"
    by (rule insert_by_insort_key)
  then show ?case by (simp add: sort_by_Cons IH)
qed

section \<open>The window filter\<close>

lemma isWithinInterval_ordered:
  "a \<le> b \<Longrightarrow> isWithinInterval d (Some a) (Some b)
     = (case d of None \<Rightarrow> False | Some t \<Rightarrow> a \<le> t \<and> t \<le> b)"
  by (simp add: isWithinInterval_def min_def max_def split: option.splits)

lemma filteredDaily_idem:
  "filteredDaily P now timeRange (filteredDaily P now timeRange xs) = filteredDaily P now timeRange xs"
  by (simp add: filteredDaily_def)

lemma filteredSessions_idem:
  "filteredSessions P now timeRange (filteredSessions P now timeRange xs)
     = filteredSessions P now timeRange xs"
  by (simp add: filteredSessions_def)

text \<open>
  C1. For each of the four granularities, both filters keep exactly the records whose
  \<^verbatim>\<open>start_date\<close> parses to a date \<open>t\<close> with \<open>start \<le> t \<le> now\<close>, both ends included,
  where \<open>start\<close> is \<open>now\<close> minus 30 days, 12 weeks, 12 months or 5 years as the
  library subtracts them (assumed not to be later than \<open>now\<close>); the whole result is
  computed from the two filtered lists; a record whose date does not parse is in
  neither filtered list.
\<close>

theorem window_filter:
  assumes "startDate P now timeRange \<le> now"
  shows
  "filteredDaily P now timeRange dailyData
     = filter (\<lambda>item. case parseISO P (start_date item) of None \<Rightarrow> False
                       | Some t \<Rightarrow> startDate P now timeRange \<le> t \<and> t \<le> now) dailyData
   \<and> filteredSessions P now timeRange sessions
     = filter (\<lambda>session. case parseISO P (start_date_s session) of None \<Rightarrow> False
                       | Some t \<Rightarrow> startDate P now timeRange \<le> t \<and> t \<le> now) sessions
   \<and> startDate P now daily = subDays P now 30
   \<and> startDate P now weekly = subWeeks P now 12
   \<and> startDate P now monthly = subMonths P now 12
   \<and> startDate P now yearly = subYears P now 5
   \<and> processDataForTimeRange P now dailyData sessions timeRange
     = processDataForTimeRange P now (filteredDaily P now timeRange dailyData)
         (filteredSessions P now timeRange sessions) timeRange
   \<and> (\<forall>item \<in> set dailyData. parseISO P (start_date item) = None
         \<longrightarrow> item \<notin> set (filteredDaily P now timeRange dailyData))
   \<and> (\<forall>session \<in> set sessions. parseISO P (start_date_s session) = None
         \<longrightarrow> session \<notin> set (filteredSessions P now timeRange sessions))"
proof -
  have d: "filteredDaily P now timeRange dailyData
     = filter (\<lambda>item. case parseISO P (start_date item) of None \<Rightarrow> False
                       | Some t \<Rightarrow> startDate P now timeRange \<le> t \<and> t \<le> now) dailyData"
    unfolding filteredDaily_def using isWithinInterval_ordered [OF assms] by simp
  have s: "filteredSessions P now timeRange sessions
     = filter (\<lambda>session. case parseISO P (start_date_s session) of None \<Rightarrow> False
                       | Some t \<Rightarrow> startDate P now timeRange \<le> t \<and> t \<le> now) sessions"
    unfolding filteredSessions_def using isWithinInterval_ordered [OF assms] by simp
  have w: "startDate P now daily = subDays P now 30" "startDate P now weekly = subWeeks P now 12"
    "startDate P now monthly = subMonths P now 12" "startDate P now yearly = subYears P now 5"
    by (simp_all add: startDate_def)
  have i: "processDataForTimeRange P now dailyData sessions timeRange
     = processDataForTimeRange P now (filteredDaily P now timeRange dailyData)
         (filteredSessions P now timeRange sessions) timeRange"
    unfolding processDataForTimeRange_def filteredDaily_idem filteredSessions_idem ..
  have nd: "\<forall>item \<in> set dailyData. parseISO P (start_date item) = None
         \<longrightarrow> item \<notin> set (filteredDaily P now timeRange dailyData)"
    by (simp add: filteredDaily_def isWithinInterval_def)
  have ns: "\<forall>session \<in> set sessions. parseISO P (start_date_s session) = None
         \<longrightarrow> session \<notin> set (filteredSessions P now timeRange sessions)"
    by (simp add: filteredSessions_def isWithinInterval_def)
  show ?thesis using d s w i nd ns by blast
qed

lemma utc_parse_examples:
  "utc_parseISO ''2024-01-10'' = Some 1704844800000"
  "utc_parseISO ''2023-12-16'' = Some 1702684800000"
  "utc_parseISO ''2023-12-15'' = Some 1702598400000"
  "utc_parseISO ''2024-01-15'' = Some 1705276800000"
  "utc_parseISO ''2024-01-16'' = Some 1705363200000"
  "utc_parseISO ''10/01/2024'' = None"
  by code_simp+

lemma utc_startDate_daily: "startDate utc now0 daily = 1702684800000"
  by (simp add: startDate_def utc_def utc_subDays_def now0_def ms_per_day_def)

lemma utc_parseISO_eq: "parseISO utc = utc_parseISO"
  by (simp add: utc_def)

lemma utc_in_window:
  "isWithinInterval (parseISO utc s) (Some (startDate utc now0 daily)) (Some now0)
     = (case utc_parseISO s of None \<Rightarrow> False | Some t \<Rightarrow> 1702684800000 \<le> t \<and> t \<le> 1705276800000)"
  by (simp add: isWithinInterval_def utc_startDate_daily utc_parseISO_eq)
    (simp add: now0_def split: option.splits)

theorem window_filter_witness:
  "startDate utc now0 daily \<le> now0
   \<and> filteredDaily utc now0 daily
        [mk_daily ''2024-01-10'' 10 9 2, mk_daily ''2023-12-15'' 1 1 1,
         mk_daily ''2023-12-16'' 3 3 1, mk_daily ''10/01/2024'' 5 5 5,
         mk_daily ''2024-01-16'' 7 7 7, mk_daily ''2024-01-15'' 4 4 4]
      = [mk_daily ''2024-01-10'' 10 9 2, mk_daily ''2023-12-16'' 3 3 1,
         mk_daily ''2024-01-15'' 4 4 4]
   \<and> filteredSessions utc now0 daily
        [mk_session ''2023-12-15'' 9 None ''Completed'', mk_session ''2024-01-10'' 9 None ''Completed'',
         mk_session ''10/01/2024'' 9 None ''Completed'']
      = [mk_session ''2024-01-10'' 9 None ''Completed'']
   \<and> parseISO utc (start_date (mk_daily ''10/01/2024'' 5 5 5)) = None
   \<and> mk_daily ''10/01/2024'' 5 5 5 \<notin> set (filteredDaily utc now0 daily
        [mk_daily ''2024-01-10'' 10 9 2, mk_daily ''2023-12-15'' 1 1 1,
         mk_daily ''2023-12-16'' 3 3 1, mk_daily ''10/01/2024'' 5 5 5,
         mk_daily ''2024-01-16'' 7 7 7, mk_daily ''2024-01-15'' 4 4 4])"
proof -
  have h: "startDate utc now0 daily \<le> now0"
    by (simp add: utc_startDate_daily) (simp add: now0_def)
  have p: "parseISO utc = utc_parseISO"
    by (simp add: utc_def)
  note w = window_filter [OF h, of
      "[mk_daily ''2024-01-10'' 10 9 2, mk_daily ''2023-12-15'' 1 1 1,
         mk_daily ''2023-12-16'' 3 3 1, mk_daily ''10/01/2024'' 5 5 5,
         mk_daily ''2024-01-16'' 7 7 7, mk_daily ''2024-01-15'' 4 4 4]"
      "[mk_session ''2023-12-15'' 9 None ''Completed'', mk_session ''2024-01-10'' 9 None ''Completed'',
         mk_session ''10/01/2024'' 9 None ''Completed'']"]
  have d: "filteredDaily utc now0 daily
        [mk_daily ''2024-01-10'' 10 9 2, mk_daily ''2023-12-15'' 1 1 1,
         mk_daily ''2023-12-16'' 3 3 1, mk_daily ''10/01/2024'' 5 5 5,
         mk_daily ''2024-01-16'' 7 7 7, mk_daily ''2024-01-15'' 4 4 4]
      = [mk_daily ''2024-01-10'' 10 9 2, mk_daily ''2023-12-16'' 3 3 1,
         mk_daily ''2024-01-15'' 4 4 4]"
    by (subst w [THEN conjunct1])
      (simp add: p utc_startDate_daily utc_parse_examples mk_daily_def, simp add: now0_def)
  have s: "filteredSessions utc now0 daily
        [mk_session ''2023-12-15'' 9 None ''Completed'', mk_session ''2024-01-10'' 9 None ''Completed'',
         mk_session ''10/01/2024'' 9 None ''Completed'']
      = [mk_session ''2024-01-10'' 9 None ''Completed'']"
    by (subst w [THEN conjunct2, THEN conjunct1])
      (simp add: p utc_startDate_daily utc_parse_examples mk_session_def, simp add: now0_def)
  have n: "parseISO utc (start_date (mk_daily ''10/01/2024'' 5 5 5)) = None"
    by (simp add: p mk_daily_def utc_parse_examples)
  have m: "mk_daily ''10/01/2024'' 5 5 5 \<notin> set (filteredDaily utc now0 daily
        [mk_daily ''2024-01-10'' 10 9 2, mk_daily ''2023-12-15'' 1 1 1,
         mk_daily ''2023-12-16'' 3 3 1, mk_daily ''10/01/2024'' 5 5 5,
         mk_daily ''2024-01-16'' 7 7 7, mk_daily ''2024-01-15'' 4 4 4])"
  proof -
    have mem: "mk_daily ''10/01/2024'' 5 5 5 \<in> set
        [mk_daily ''2024-01-10'' 10 9 2, mk_daily ''2023-12-15'' 1 1 1,
         mk_daily ''2023-12-16'' 3 3 1, mk_daily ''10/01/2024'' 5 5 5,
         mk_daily ''2024-01-16'' 7 7 7, mk_daily ''2024-01-15'' 4 4 4]"
      by simp
    note ball = w [THEN conjunct2, THEN conjunct2, THEN conjunct2, THEN conjunct2,
        THEN conjunct2, THEN conjunct2, THEN conjunct2, THEN conjunct1]
    from ball [THEN bspec, OF mem] n show ?thesis by blast
  qed
  from h d s n m show ?thesis by blast
qed

section \<open>Empty inputs\<close>

text \<open>
  C7. For every granularity, on any platform and at any clock reading, empty daily
  data and empty sessions give the zero totals, the empty chart series, breakdown and
  recent-sessions list, and peak hour 9. The function is total, so no step fails.
\<close>

theorem empty_inputs:
  "processDataForTimeRange P now [] [] timeRange =
     \<lparr> totalJobs = 0, successRate = Finite 0, utilizationHours = Finite 0, materialTypes = 0,
       avgDuration = Finite 0, peakHour = Finite 9, errorCount = 0, chartData = [],
       materialBreakdown = [], recentSessions = [] \<rparr>"
  by (simp add: processDataForTimeRange_def filteredDaily_def filteredSessions_def
      groupDataByPeriod_def sort_by_def recentSort_Nil)

section \<open>Insertion-ordered maps\<close>

lemma map_of_map_set: "map_of (map_set k v m) = (map_of m)(k \<mapsto> v)"
  by (induction m) (auto simp: fun_eq_iff)

lemma set_keys_map_set: "fst ` set (map_set k v m) = insert k (fst ` set m)"
proof (induction m)
  case Nil
  show ?case by simp
next
  case (Cons e m)
  obtain k' v' where e: "e = (k', v')" by (cases e)
  show ?case
  proof (cases "k' = k")
    case True
    then show ?thesis by (simp add: e)
  next
    case False
    then show ?thesis using Cons.IH by (simp add: e insert_commute)
  qed
qed

lemma keys_map_set:
  "map fst (map_set k v m) = (if k \<in> fst ` set m then map fst m else map fst m @ [k])"
  by (induction m) (auto simp: rev_image_eqI)

lemma distinct_map_set: "distinct (map fst m) \<Longrightarrow> distinct (map fst (map_set k v m))"
  by (simp add: keys_map_set)

lemma get_or_zero_count_key:
  "get_or_zero (count_key m k) k' = get_or_zero m k' + (if k' = k then 1 else 0)"
  by (simp add: count_key_def get_or_zero_def map_of_map_set)

lemma get_or_zero_fold:
  "get_or_zero (foldl count_key m ks) k = get_or_zero m k + count_list ks k"
  by (induction ks arbitrary: m) (auto simp: get_or_zero_count_key)

lemma distinct_fold_count_key:
  "distinct (map fst m) \<Longrightarrow> distinct (map fst (foldl count_key m ks))"
  by (induction ks arbitrary: m) (auto simp: count_key_def distinct_map_set)

lemma keys_fold_count_key:
  "set (map fst (foldl count_key m ks)) = set (map fst m) \<union> set ks"
  by (induction ks arbitrary: m) (auto simp: count_key_def set_keys_map_set)

lemma entry_fold_count_key:
  assumes "(k, v) \<in> set (foldl count_key [] ks)"
  shows "v = count_list ks k"
proof -
  have "distinct (map fst (foldl count_key [] ks))"
    by (rule distinct_fold_count_key) simp
  with assms have "map_of (foldl count_key [] ks) k = Some v"
    by simp
  then have "get_or_zero (foldl count_key [] ks) k = v"
    by (simp add: get_or_zero_def)
  moreover have "get_or_zero (foldl count_key [] ks) k = count_list ks k"
    by (simp add: get_or_zero_fold) (simp add: get_or_zero_def)
  ultimately show ?thesis
    by simp
qed

lemma fold_count_hour: "foldl count_hour m ss = foldl count_key m (hours_of ss)"
  by (induction ss arbitrary: m)
    (auto simp: hours_of_def count_hour_def count_key_def split: option.splits)

lemma fold_count_material: "foldl count_material m ss = foldl count_key m (materials_of ss)"
  by (induction ss arbitrary: m)
    (auto simp: materials_of_def count_material_def count_key_def split: option.splits)


section \<open>Blank and missing material types\<close>

lemma insert_by_map:
  assumes "\<And>a b. cmp (f a) (f b) = cmp a b"
  shows "insert_by cmp (f x) (map f ys) = map f (insert_by cmp x ys)"
  by (induction ys) (simp_all add: assms)

lemma sort_by_map:
  assumes "\<And>a b. cmp (f a) (f b) = cmp a b"
  shows "sort_by cmp (map f xs) = map f (sort_by cmp xs)"
  by (induction xs) (simp_all add: sort_by_Nil sort_by_Cons insert_by_map [of cmp f, OF assms])

lemma null_if_blank_fields:
  "start_date_s (null_if_blank s) = start_date_s s"
  "session_start (null_if_blank s) = session_start s"
  "status (null_if_blank s) = status s"
  "start_hour (null_if_blank s) = start_hour s"
  "duration_minutes (null_if_blank s) = duration_minutes s"
  by (simp_all add: null_if_blank_def)

lemma session_time_null_if_blank: "session_time P (null_if_blank s) = session_time P s"
  by (simp add: session_time_def null_if_blank_fields split: option.splits)

lemma recent_cmp_null_if_blank:
  "recent_cmp P (null_if_blank a) (null_if_blank b) = recent_cmp P a b"
  by (simp add: recent_cmp_def session_time_null_if_blank split: option.splits)

lemma filteredSessions_null_if_blank:
  "filteredSessions P now timeRange (map null_if_blank ss)
     = map null_if_blank (filteredSessions P now timeRange ss)"
  by (simp add: filteredSessions_def filter_map comp_def null_if_blank_fields)

lemma materials_of_null_if_blank: "materials_of (map null_if_blank ss) = materials_of ss"
  by (induction ss) (auto simp: materials_of_def null_if_blank_def split: option.splits)

lemma hours_of_null_if_blank: "hours_of (map null_if_blank ss) = hours_of ss"
  by (simp add: hours_of_def comp_def null_if_blank_fields)

lemma count_material_blank:
  "material_type s = None \<or> material_type s = Some [] \<Longrightarrow> count_material m s = m"
  by (auto simp: count_material_def)


lemma recentSort_null_if_blank:
  "recentSort P (map null_if_blank ss) = map null_if_blank (recentSort P ss)"
proof -
  have t: "map (session_time P) (map null_if_blank ss) = map (session_time P) ss"
    by (simp add: comp_def session_time_null_if_blank)
  have s: "sort_by (recent_cmp P) (map null_if_blank ss) = map null_if_blank (sort_by (recent_cmp P) ss)"
    by (rule sort_by_map) (rule recent_cmp_null_if_blank)
  show ?thesis
    unfolding recentSort_def t s reorder_map by simp
qed

lemma null_if_blank_result:
  "processDataForTimeRange P now dailyData (map null_if_blank sessions) timeRange
     = (processDataForTimeRange P now dailyData sessions timeRange)
         \<lparr> recentSessions := map null_if_blank
             (recentSessions (processDataForTimeRange P now dailyData sessions timeRange)) \<rparr>"
  by (simp add: processDataForTimeRange_def Let_def filteredSessions_null_if_blank
      recentSort_null_if_blank fold_count_material fold_count_hour materials_of_null_if_blank
      hours_of_null_if_blank filter_map comp_def null_if_blank_fields foldl_map take_map)

lemma materialCounts_keys:
  "distinct (map fst (foldl count_key [] ms)) \<and> set (map fst (foldl count_key [] ms)) = set ms"
  using distinct_fold_count_key [of "[]" ms] keys_fold_count_key [of "[]" ms] by simp

lemma materialTypes_result:
  "materialTypes (processDataForTimeRange P now dailyData sessions timeRange)
     = card (set (materials_of (filteredSessions P now timeRange sessions)))"
proof -
  let ?ms = "materials_of (filteredSessions P now timeRange sessions)"
  have "materialTypes (processDataForTimeRange P now dailyData sessions timeRange)
      = length (map fst (foldl count_key [] ?ms))"
    by (simp add: processDataForTimeRange_def Let_def fold_count_material)
  also have "\<dots> = card (set (map fst (foldl count_key [] ?ms)))"
    using materialCounts_keys [of ?ms] by (metis distinct_card)
  also have "\<dots> = card (set ?ms)"
    using materialCounts_keys [of ?ms] by metis
  finally show ?thesis .
qed

lemma materialBreakdown_result:
  "materialBreakdown (processDataForTimeRange P now dailyData sessions timeRange)
     = sort_by (\<lambda>a b. int (count b) - int (count a))
         (map (\<lambda>(m, c). \<lparr> material = m, count = c, color = getMaterialColor m \<rparr>)
            (foldl count_key [] (materials_of (filteredSessions P now timeRange sessions))))"
  by (simp add: processDataForTimeRange_def Let_def fold_count_material)

lemma materialBreakdown_entry:
  assumes "e \<in> set (materialBreakdown (processDataForTimeRange P now dailyData sessions timeRange))"
  shows "material e \<in> set (materials_of (filteredSessions P now timeRange sessions))"
    and "count e = count_list (materials_of (filteredSessions P now timeRange sessions)) (material e)"
    and "color e = getMaterialColor (material e)"
proof -
  let ?ms = "materials_of (filteredSessions P now timeRange sessions)"
  from assms obtain m c where mc: "(m, c) \<in> set (foldl count_key [] ?ms)"
    and e: "e = \<lparr> material = m, count = c, color = getMaterialColor m \<rparr>"
    by (auto simp: materialBreakdown_result set_sort_by)
  from mc have c: "c = count_list ?ms m" by (rule entry_fold_count_key)
  from mc have "m \<in> set (map fst (foldl count_key [] ?ms))" by force
  then have m: "m \<in> set ?ms" using materialCounts_keys [of ?ms] by simp
  from e m show "material e \<in> set ?ms" by simp
  from e c show "count e = count_list ?ms (material e)" by simp
  from e show "color e = getMaterialColor (material e)" by simp
qed

lemma materials_of_truthy: "[] \<notin> set (materials_of ss)"
  by (induction ss) (auto simp: materials_of_def split: option.splits)

lemma materials_of_Cons_blank:
  "material_type s = None \<or> material_type s = Some [] \<Longrightarrow> materials_of (s # ss) = materials_of ss"
  by (auto simp: materials_of_def)

lemma sessionColumn_blank:
  "trim header = ''material_type'' \<Longrightarrow>
   sessionColumn P header (cell row i) obj ''material_type''
     = Some (JStr (if i < length row then trim (row ! i) else []))"
  by (simp add: sessionColumn_def cell_def)


lemma materials_of_append: "materials_of (xs @ ys) = materials_of xs @ materials_of ys"
  by (simp add: materials_of_def)

lemma materials_of_blank_anywhere:
  "material_type s = None \<or> material_type s = Some []
     \<Longrightarrow> materials_of (pre @ s # post) = materials_of (pre @ post)"
  using materials_of_Cons_blank [of s post] by (simp add: materials_of_append)

section \<open>The order of the material breakdown\<close>

lemma insert_by_count:
  "insert_by (\<lambda>a b. int (count b) - int (count a)) x ys = insort_key (\<lambda>e. - int (count e)) x ys"
  by (induction ys) simp_all

lemma sort_by_count:
  "sort_by (\<lambda>a b. int (count b) - int (count a)) xs = sort_key (\<lambda>e. - int (count e)) xs"
  by (induction xs) (simp_all add: sort_by_Nil sort_by_Cons insert_by_count)

lemma materialBreakdown_descending:
  "sorted_wrt (\<lambda>a b. count b \<le> count a)
     (materialBreakdown (processDataForTimeRange P now dailyData sessions timeRange))"
proof -
  have "sorted (map (\<lambda>e. - int (count e))
      (materialBreakdown (processDataForTimeRange P now dailyData sessions timeRange)))"
    by (simp only: materialBreakdown_result sort_by_count sorted_sort_key)
  then show ?thesis
    by (simp add: sorted_map)
qed

lemma materialBreakdown_stable:
  "filter (\<lambda>e. count e = c)
     (materialBreakdown (processDataForTimeRange P now dailyData sessions timeRange))
   = filter (\<lambda>e. count e = c)
       (map (\<lambda>(m, c). \<lparr> material = m, count = c, color = getMaterialColor m \<rparr>)
          (foldl count_key [] (materials_of (filteredSessions P now timeRange sessions))))"
proof -
  have "(\<lambda>e :: MaterialEntry. count e = c) = (\<lambda>e. - int (count e) = - int c)"
    by auto
  then show ?thesis
    by (simp only: materialBreakdown_result sort_by_count sort_key_stable)
qed

section \<open>The colour of a material\<close>

lemma constructor_filtered:
  "filteredSessions utc now0 daily [constructor_session] = [constructor_session]"
  by (simp add: filteredSessions_def utc_in_window utc_parse_examples constructor_session_def
      mk_session_def)

lemma getMaterialColor_table:
  "name \<notin> set object_prototype_members \<Longrightarrow>
   getMaterialColor name = (case map_of colors name of Some c \<Rightarrow> Str c | None \<Rightarrow> Str ''#6b7280'')"
  by (auto simp: getMaterialColor_def colors_get_def colors_def truthy_def split: option.splits)

text \<open>
  C3, the code at the failing input. A material named after a member of
  \<^verbatim>\<open>Object.prototype\<close> is not a key of the colour table, yet \<^verbatim>\<open>colors[material]\<close>
  finds the inherited member, which is truthy, so the fallback is not taken and the
  entry's colour is that member instead of a colour string. An unlisted material of
  any other name gets the fallback colour.
\<close>

theorem material_color_inherited:
  "map_of colors ''constructor'' = None
   \<and> getMaterialColor ''constructor'' = Inherited ''constructor''
   \<and> list_all (\<lambda>name. getMaterialColor name = Inherited name) object_prototype_members
   \<and> getMaterialColor ''Zirconia'' = Str ''#6b7280''
   \<and> materialBreakdown (processDataForTimeRange utc now0 [] [constructor_session] daily)
       = [\<lparr> material = ''constructor'', count = 1, color = Inherited ''constructor'' \<rparr>]"
proof -
  have a: "map_of colors ''constructor'' = None"
    by (simp add: colors_def)
  have b: "getMaterialColor ''constructor'' = Inherited ''constructor''"
    by (simp add: getMaterialColor_def colors_get_def colors_def truthy_def
        object_prototype_members_def)
  have c: "getMaterialColor ''Zirconia'' = Str ''#6b7280''"
    by (simp add: getMaterialColor_def colors_get_def colors_def truthy_def
        object_prototype_members_def)
  have m: "list_all (\<lambda>name. getMaterialColor name = Inherited name) object_prototype_members"
    by (simp add: getMaterialColor_def colors_get_def colors_def truthy_def
        object_prototype_members_def)
  have d: "materialBreakdown (processDataForTimeRange utc now0 [] [constructor_session] daily)
       = [\<lparr> material = ''constructor'', count = 1, color = Inherited ''constructor'' \<rparr>]"
    by (simp add: materialBreakdown_result constructor_filtered)
      (simp add: materials_of_def constructor_session_def mk_session_def count_key_def
        get_or_zero_def sort_by_def b)
  from a b m c d show ?thesis by (intro conjI)
qed

section \<open>The record mappers never drop a row\<close>

lemma split_lines_nonempty: "split_lines s piece \<noteq> []"
  by (induction s piece rule: split_lines.induct) simp_all

lemma parseCSV_nonempty: "parseCSV csvText \<noteq> []"
  by (simp add: parseCSV_def split_lines_nonempty)

lemma length_parseDailyData: "length (parseDailyData P csvText) = length (parseCSV csvText) - 1"
  by (simp add: parseDailyData_def split: list.splits)

lemma length_parseJobSessions: "length (parseJobSessions P csvText) = length (parseCSV csvText) - 1"
  by (simp add: parseJobSessions_def split: list.splits)

lemma dailyColumn_other: "trim header \<noteq> name \<Longrightarrow> dailyColumn P header value obj name = obj name"
  by (auto simp: dailyColumn_def Let_def)

lemma sessionColumn_other: "trim header \<noteq> name \<Longrightarrow> sessionColumn P header value obj name = obj name"
  by (auto simp: sessionColumn_def Let_def)

lemma forEach_header_other:
  assumes "\<And>header value obj. trim header \<noteq> name \<Longrightarrow> f header value obj name = obj name"
    and "name \<notin> set (map trim headers)"
  shows "forEach_header f headers index row obj name = obj name"
  using assms(2)
proof (induction headers arbitrary: index obj)
  case Nil
  show ?case by simp
next
  case (Cons header headers)
  then have "trim header \<noteq> name" and "name \<notin> set (map trim headers)" by auto
  then show ?case using Cons.IH assms(1) by simp
qed

lemma forEach_header_at:
  assumes other: "\<And>header value obj. trim header \<noteq> name \<Longrightarrow> f header value obj name = obj name"
    and own: "\<And>header value obj. trim header = name \<Longrightarrow> f header value obj name = g value"
    and "distinct (map trim headers)" and "i < length headers" and "trim (headers ! i) = name"
  shows "forEach_header f headers index row obj name = g (cell row (index + i))"
  using assms(3-5)
proof (induction headers arbitrary: index obj i)
  case Nil
  then show ?case by simp
next
  case (Cons header headers)
  show ?case
  proof (cases i)
    case 0
    with Cons.prems have h: "trim header = name" and "name \<notin> set (map trim headers)"
      by auto
    then show ?thesis
      using forEach_header_other [of name f headers, OF other] own [OF h] 0 by simp
  next
    case (Suc j)
    with Cons.prems have "distinct (map trim headers)" "j < length headers"
      "trim (headers ! j) = name"
      by auto
    then show ?thesis
      using Cons.IH [of j "Suc index"] Suc by simp
  qed
qed

lemma dailyColumn_own:
  "trim header = name \<Longrightarrow>
   dailyColumn P header value obj name
     = (if name = ''start_date'' then Some (JStr value)
        else if name \<in> set [''total_sessions'', ''completed_sessions'', ''material_types'',
                             ''total_jobs'']
          then Some (JNum (or_zero (Some (parseInt P value))))
        else if name \<in> set [''total_duration_minutes'', ''avg_duration_minutes'',
                             ''success_rate'', ''utilization_hours'']
          then Some (JNum (or_zero (Some (parseFloat P value))))
        else obj name)"
  by (simp add: dailyColumn_def Let_def)

lemma sessionColumn_own:
  "trim header = name \<Longrightarrow> name \<noteq> ''__proto__'' \<Longrightarrow>
   sessionColumn P header value obj name
     = Some (if name \<in> set [''session_id'', ''start_hour'', ''job_count'']
               then JNum (or_zero (Some (parseInt P value)))
             else if name = ''duration_minutes'' then JNum (or_zero (Some (parseFloat P value)))
             else JStr value)"
  by (simp add: sessionColumn_def Let_def)

lemma sessionColumn_proto:
  "sessionColumn P header value obj ''__proto__'' = obj ''__proto__''"
  by (simp add: sessionColumn_def Let_def)

lemma forEach_header_never:
  assumes "\<And>header value obj. f header value obj name = obj name"
  shows "forEach_header f headers index row obj name = obj name"
  by (induction headers arbitrary: index obj) (simp_all add: assms)

lemma or_zero_NaN: "or_zero (Some v) = (if v = NaN then Finite 0 else v)"
  by (simp add: or_zero_def)


lemma daily_row_at:
  assumes "parseCSV csvText = headers # dataRows" and "r < length dataRows"
  shows "parseDailyData P csvText ! r
       = forEach_header (dailyColumn P) headers 0 (dataRows ! r) Map.empty"
  using assms by (simp add: parseDailyData_def)

lemma session_row_at:
  assumes "parseCSV csvText = headers # dataRows" and "r < length dataRows"
  shows "parseJobSessions P csvText ! r
       = forEach_header (sessionColumn P) headers 0 (dataRows ! r) Map.empty"
  using assms by (simp add: parseJobSessions_def)

text \<open>
  C9. Both mappers return one record for each data row, in order, whatever the cells
  hold. With distinct header names, the record of a data row has under the name of
  each declared integer column the number \<^verbatim>\<open>parseInt\<close> reads from the cell, or 0 when
  it reads none (\<^verbatim>\<open>NaN\<close>); under each declared real column the number
  \<^verbatim>\<open>parseFloat\<close> reads, or 0 when it reads none; and under \<^verbatim>\<open>start_date\<close>, and in a
  session under every other column, the trimmed cell. A cell that the row does not
  have is read as the empty string, so its number is 0 and its string is empty. The
  one column name under which a session stores nothing is \<^verbatim>\<open>__proto__\<close>, which is
  not a column of the data.
\<close>

theorem mappers_keep_rows:
  assumes "parseCSV csvText = headers # dataRows"
    and "distinct (map trim headers)"
    and "r < length dataRows"
    and "i < length headers"
  shows
  "length (parseDailyData P csvText) = length dataRows
   \<and> length (parseJobSessions P csvText) = length dataRows
   \<and> (trim (headers ! i) \<in> set [''total_sessions'', ''completed_sessions'', ''material_types'',
                                   ''total_jobs''] \<longrightarrow>
        (parseDailyData P csvText ! r) (trim (headers ! i))
          = Some (JNum (if parseInt P (cell (dataRows ! r) i) = NaN then Finite 0
                        else parseInt P (cell (dataRows ! r) i))))
   \<and> (trim (headers ! i) \<in> set [''total_duration_minutes'', ''avg_duration_minutes'',
                                   ''success_rate'', ''utilization_hours''] \<longrightarrow>
        (parseDailyData P csvText ! r) (trim (headers ! i))
          = Some (JNum (if parseFloat P (cell (dataRows ! r) i) = NaN then Finite 0
                        else parseFloat P (cell (dataRows ! r) i))))
   \<and> (trim (headers ! i) = ''start_date'' \<longrightarrow>
        (parseDailyData P csvText ! r) (trim (headers ! i)) = Some (JStr (cell (dataRows ! r) i)))
   \<and> (trim (headers ! i) \<in> set [''session_id'', ''start_hour'', ''job_count''] \<longrightarrow>
        (parseJobSessions P csvText ! r) (trim (headers ! i))
          = Some (JNum (if parseInt P (cell (dataRows ! r) i) = NaN then Finite 0
                        else parseInt P (cell (dataRows ! r) i))))
   \<and> (trim (headers ! i) = ''duration_minutes'' \<longrightarrow>
        (parseJobSessions P csvText ! r) (trim (headers ! i))
          = Some (JNum (if parseFloat P (cell (dataRows ! r) i) = NaN then Finite 0
                        else parseFloat P (cell (dataRows ! r) i))))
   \<and> (trim (headers ! i) \<notin> set [''session_id'', ''start_hour'', ''job_count'',
                                   ''duration_minutes'', ''__proto__''] \<longrightarrow>
        (parseJobSessions P csvText ! r) (trim (headers ! i)) = Some (JStr (cell (dataRows ! r) i)))
   \<and> (parseJobSessions P csvText ! r) ''__proto__'' = None
   \<and> cell (dataRows ! r) i
       = (if i < length (dataRows ! r) then trim (dataRows ! r ! i) else [])"
proof -
  define name where "name = trim (headers ! i)"
  define row where "row = dataRows ! r"
  have n: "trim (headers ! i) = name" by (simp add: name_def)
  have len: "length (parseDailyData P csvText) = length dataRows"
    "length (parseJobSessions P csvText) = length dataRows"
    using assms(1) by (simp_all add: length_parseDailyData length_parseJobSessions)
  have d: "parseDailyData P csvText ! r = forEach_header (dailyColumn P) headers 0 row Map.empty"
    unfolding row_def using assms(1,3) by (rule daily_row_at)
  have s: "parseJobSessions P csvText ! r = forEach_header (sessionColumn P) headers 0 row Map.empty"
    unfolding row_def using assms(1,3) by (rule session_row_at)
  have daily: "(parseDailyData P csvText ! r) name = g (cell row i)"
    if "\<And>header value obj. trim header = name \<Longrightarrow> dailyColumn P header value obj name = g value"
    for g
    unfolding d
    using forEach_header_at [of name "dailyColumn P" g headers i 0 row Map.empty,
        OF dailyColumn_other that assms(2,4) n]
    by simp
  have session: "(parseJobSessions P csvText ! r) name = g (cell row i)"
    if "\<And>header value obj. trim header = name \<Longrightarrow> sessionColumn P header value obj name = g value"
    for g
    unfolding s
    using forEach_header_at [of name "sessionColumn P" g headers i 0 row Map.empty,
        OF sessionColumn_other that assms(2,4) n]
    by simp
  note z = or_zero_NaN
  have c1: "name \<in> set [''total_sessions'', ''completed_sessions'', ''material_types'',
                         ''total_jobs''] \<longrightarrow>
        (parseDailyData P csvText ! r) name
          = Some (JNum (if parseInt P (cell row i) = NaN then Finite 0 else parseInt P (cell row i)))"
  proof
    assume a: "name \<in> set [''total_sessions'', ''completed_sessions'', ''material_types'',
                            ''total_jobs'']"
    show "(parseDailyData P csvText ! r) name
          = Some (JNum (if parseInt P (cell row i) = NaN then Finite 0 else parseInt P (cell row i)))"
      by (rule daily) (use a in \<open>auto simp: dailyColumn_own z\<close>)
  qed
  have c2: "name \<in> set [''total_duration_minutes'', ''avg_duration_minutes'',
                         ''success_rate'', ''utilization_hours''] \<longrightarrow>
        (parseDailyData P csvText ! r) name
          = Some (JNum (if parseFloat P (cell row i) = NaN then Finite 0 else parseFloat P (cell row i)))"
  proof
    assume a: "name \<in> set [''total_duration_minutes'', ''avg_duration_minutes'',
                            ''success_rate'', ''utilization_hours'']"
    show "(parseDailyData P csvText ! r) name
          = Some (JNum (if parseFloat P (cell row i) = NaN then Finite 0 else parseFloat P (cell row i)))"
      by (rule daily) (use a in \<open>auto simp: dailyColumn_own z\<close>)
  qed
  have c3: "name = ''start_date'' \<longrightarrow>
        (parseDailyData P csvText ! r) name = Some (JStr (cell row i))"
  proof
    assume a: "name = ''start_date''"
    show "(parseDailyData P csvText ! r) name = Some (JStr (cell row i))"
      by (rule daily) (use a in \<open>auto simp: dailyColumn_own\<close>)
  qed
  have c4: "name \<in> set [''session_id'', ''start_hour'', ''job_count''] \<longrightarrow>
        (parseJobSessions P csvText ! r) name
          = Some (JNum (if parseInt P (cell row i) = NaN then Finite 0 else parseInt P (cell row i)))"
  proof
    assume a: "name \<in> set [''session_id'', ''start_hour'', ''job_count'']"
    show "(parseJobSessions P csvText ! r) name
          = Some (JNum (if parseInt P (cell row i) = NaN then Finite 0 else parseInt P (cell row i)))"
      by (rule session) (use a in \<open>auto simp: sessionColumn_own z\<close>)
  qed
  have c5: "name = ''duration_minutes'' \<longrightarrow>
        (parseJobSessions P csvText ! r) name
          = Some (JNum (if parseFloat P (cell row i) = NaN then Finite 0 else parseFloat P (cell row i)))"
  proof
    assume a: "name = ''duration_minutes''"
    show "(parseJobSessions P csvText ! r) name
          = Some (JNum (if parseFloat P (cell row i) = NaN then Finite 0 else parseFloat P (cell row i)))"
      by (rule session) (use a in \<open>auto simp: sessionColumn_own z\<close>)
  qed
  have c6: "name \<notin> set [''session_id'', ''start_hour'', ''job_count'', ''duration_minutes'',
                         ''__proto__''] \<longrightarrow>
        (parseJobSessions P csvText ! r) name = Some (JStr (cell row i))"
  proof
    assume a: "name \<notin> set [''session_id'', ''start_hour'', ''job_count'', ''duration_minutes'',
                            ''__proto__'']"
    show "(parseJobSessions P csvText ! r) name = Some (JStr (cell row i))"
      by (rule session) (use a in \<open>auto simp: sessionColumn_own\<close>)
  qed
  have c6': "(parseJobSessions P csvText ! r) ''__proto__'' = None"
    unfolding s using forEach_header_never [of "sessionColumn P" "''__proto__''", OF sessionColumn_proto]
    by simp
  have c7: "cell row i = (if i < length row then trim (row ! i) else [])"
    by (simp add: cell_def)
  from len c1 c2 c3 c4 c5 c6 c6' c7 show ?thesis
    unfolding name_def row_def by (intro conjI)
qed


lemma sessions_csv_rows:
  "parseCSV sessions_csv
     = [''session_id'', ''start_hour'', ''material_type'', ''duration_minutes'']
       # [[''7'', ''abc'', [], ''2.5''], [''8'', ''10'']]"
  by code_simp

lemma daily_csv_rows:
  "parseCSV daily_csv
     = [''start_date'', ''total_sessions'', ''utilization_hours'']
       # [[''2024-01-10'', ''12'', ''x'']]"
  by code_simp

lemma proto_csv_rows:
  "parseCSV proto_csv = [''session_id'', ''__proto__''] # [[''7'', ''x'']]"
  by code_simp

lemma trim_names:
  "map trim [''session_id'', ''start_hour'', ''material_type'', ''duration_minutes'']
     = [''session_id'', ''start_hour'', ''material_type'', ''duration_minutes'']"
  "map trim [''start_date'', ''total_sessions'', ''utilization_hours'']
     = [''start_date'', ''total_sessions'', ''utilization_hours'']"
  "map trim [''session_id'', ''__proto__''] = [''session_id'', ''__proto__'']"
  by (simp_all add: trim_def is_space_def)

lemma utc_number_examples:
  "parseInt utc ''abc'' = NaN"
  "parseInt utc ''12'' = Finite 12"
  "parseInt utc ''10'' = Finite 10"
  "parseInt utc ''7'' = Finite 7"
  "parseFloat utc ''x'' = NaN"
  "parseFloat utc [] = NaN"
  "parseFloat utc ''2.5'' = Finite (5 / 2)"
  by code_simp+

theorem mappers_keep_rows_witness:
  "parseCSV sessions_csv
     = [''session_id'', ''start_hour'', ''material_type'', ''duration_minutes'']
       # [[''7'', ''abc'', [], ''2.5''], [''8'', ''10'']]
   \<and> distinct (map trim [''session_id'', ''start_hour'', ''material_type'', ''duration_minutes''])
   \<and> length (parseJobSessions utc sessions_csv) = 2
   \<and> (parseJobSessions utc sessions_csv ! 0) ''start_hour'' = Some (JNum (Finite 0))
   \<and> (parseJobSessions utc sessions_csv ! 0) ''material_type'' = Some (JStr [])
   \<and> (parseJobSessions utc sessions_csv ! 0) ''duration_minutes'' = Some (JNum (Finite (5 / 2)))
   \<and> (parseJobSessions utc sessions_csv ! 1) ''duration_minutes'' = Some (JNum (Finite 0))
   \<and> (parseJobSessions utc sessions_csv ! 1) ''material_type'' = Some (JStr [])
   \<and> parseCSV daily_csv
       = [''start_date'', ''total_sessions'', ''utilization_hours''] # [[''2024-01-10'', ''12'', ''x'']]
   \<and> length (parseDailyData utc daily_csv) = 1
   \<and> (parseDailyData utc daily_csv ! 0) ''start_date'' = Some (JStr ''2024-01-10'')
   \<and> (parseDailyData utc daily_csv ! 0) ''total_sessions'' = Some (JNum (Finite 12))
   \<and> (parseDailyData utc daily_csv ! 0) ''utilization_hours'' = Some (JNum (Finite 0))
   \<and> parseCSV proto_csv = [''session_id'', ''__proto__''] # [[''7'', ''x'']]
   \<and> (parseJobSessions utc proto_csv ! 0) ''session_id'' = Some (JNum (Finite 7))
   \<and> (parseJobSessions utc proto_csv ! 0) ''__proto__'' = None"
proof -
  let ?hs = "[''session_id'', ''start_hour'', ''material_type'', ''duration_minutes'']"
  let ?hd = "[''start_date'', ''total_sessions'', ''utilization_hours'']"
  have ds: "distinct (map trim ?hs)" and dd: "distinct (map trim ?hd)"
    and dp: "distinct (map trim [''session_id'', ''__proto__''])"
    by (simp_all only: trim_names) simp_all
  note p = mappers_keep_rows [OF proto_csv_rows dp, of 0 0 utc]
  have p1: "(parseJobSessions utc proto_csv ! 0) ''session_id'' = Some (JNum (Finite 7))"
    using p by (simp add: trim_def is_space_def cell_def utc_number_examples)
  have p2: "(parseJobSessions utc proto_csv ! 0) ''__proto__'' = None"
    using p by simp
  note s = mappers_keep_rows [OF sessions_csv_rows ds, of _ _ utc]
  note d = mappers_keep_rows [OF daily_csv_rows dd, of _ _ utc]
  have l: "length (parseJobSessions utc sessions_csv) = 2"
    using s [of 0 0] by simp
  have a: "(parseJobSessions utc sessions_csv ! 0) ''start_hour'' = Some (JNum (Finite 0))"
    using s [of 0 1] by (simp add: trim_def is_space_def cell_def utc_number_examples)
  have b: "(parseJobSessions utc sessions_csv ! 0) ''material_type'' = Some (JStr [])"
    using s [of 0 2] by (simp add: trim_def is_space_def cell_def)
  have c: "(parseJobSessions utc sessions_csv ! 0) ''duration_minutes'' = Some (JNum (Finite (5 / 2)))"
    using s [of 0 3] by (simp add: trim_def is_space_def cell_def utc_number_examples)
  have e: "(parseJobSessions utc sessions_csv ! 1) ''duration_minutes'' = Some (JNum (Finite 0))"
    using s [of 1 3] by (simp add: trim_def is_space_def cell_def utc_number_examples)
  have f: "(parseJobSessions utc sessions_csv ! 1) ''material_type'' = Some (JStr [])"
    using s [of 1 2] by (simp add: trim_def is_space_def cell_def)
  have m: "length (parseDailyData utc daily_csv) = 1"
    using d [of 0 0] by simp
  have g: "(parseDailyData utc daily_csv ! 0) ''start_date'' = Some (JStr ''2024-01-10'')"
    using d [of 0 0] by (simp add: trim_def is_space_def cell_def)
  have h: "(parseDailyData utc daily_csv ! 0) ''total_sessions'' = Some (JNum (Finite 12))"
    using d [of 0 1] by (simp add: trim_def is_space_def cell_def utc_number_examples)
  have k: "(parseDailyData utc daily_csv ! 0) ''utilization_hours'' = Some (JNum (Finite 0))"
    using d [of 0 2] by (simp add: trim_def is_space_def cell_def utc_number_examples)
  from sessions_csv_rows ds l a b c e f daily_csv_rows m g h k proto_csv_rows p1 p2 show ?thesis
    by (intro conjI)
qed

end
